theory Spec2Isabelle
  imports Main "HOL-Library.Word" "HOL-Library.AList" "HOL-Library.Char_ord" "HOL-Library.List_Lexorder"
begin

section \<open>pgtool: backup and restore of a PostgreSQL database\<close>

text \<open>
  A shallow embedding of \<^verbatim>\<open>pgtool.go\<close>. The program is sequential; its state is the
  file system, the lines it logs and prints, and the calls it makes to the operating
  system. Every call that can fail in Go returns its error as a value here, and
  \<^verbatim>\<open>os.Exit\<close>, a normal return and a runtime panic are the three outcomes of a run.
\<close>

subsection \<open>Data\<close>

type_synonym path = string
type_synonym byte = "8 word"

datatype error =
    ErrNotExist | ErrPermission | ErrIsDir | ErrNoSpace | ErrIO
  | ErrHeader | ErrChecksum | ErrUnexpectedEOF
  | ErrExecNotFound | ExitError nat | SkipDir

text \<open>
  A \<^verbatim>\<open>time.Time\<close>: the instant (for \<^verbatim>\<open>Before\<close>) and the civil fields in the local zone
  (for \<^verbatim>\<open>Format\<close>).
\<close>

record Time =
  unixNano :: int
  Year :: int
  Month :: nat
  Day :: nat
  Hour :: nat
  Minute :: nat
  Second :: nat

definition Before :: "Time \<Rightarrow> Time \<Rightarrow> bool" where
  "Before t u = (unixNano t < unixNano u)"

text \<open>The type bits of \<^verbatim>\<open>os.FileMode\<close>, and what \<^verbatim>\<open>os.FileInfo\<close> tells about an entry.\<close>

datatype fileMode = ModeRegular | ModeDir | ModeSymlink | ModeNamedPipe | ModeSocket | ModeDevice

record node =
  mode :: fileMode
  content :: "byte list"
  modTime :: Time

definition IsDir :: "node \<Rightarrow> bool" where
  "IsDir n = (mode n = ModeDir)"

definition IsRegular :: "node \<Rightarrow> bool" where
  "IsRegular n = (mode n = ModeRegular)"

definition ModTime :: "node \<Rightarrow> Time" where
  "ModTime n = modTime n"

text \<open>
  The calls that the claims speak of, each with what it returned: every \<^verbatim>\<open>os.Remove\<close>, every
  external process that is run (its name, its arguments and the variables added to its
  environment), and the calls of \<^verbatim>\<open>compressFile\<close> and \<^verbatim>\<open>decompressFile\<close>.
\<close>

datatype event =
    CallRemove path "error option"
  | CallExec string "string list" "string list" "error option"
  | CallCompress path path "error option"
  | CallDecompress path path "error option"

record world =
  files :: "(path \<times> node) list"
  trace :: "event list"
  logged :: "string list"
  stdout :: "string list"

datatype outcome = Exited nat | Returned | Panicked

text \<open>
  What the program does not decide: the clock, the environment variable, the two external
  programs, the gzip codec of the standard library, and the failures of the operating
  system. \<open>fault_write p = Some (n, e)\<close> says that the file at \<open>p\<close> takes \<open>n\<close> bytes and
  then fails with \<open>e\<close> (a full disk).
\<close>

record env =
  PGPASSWORD :: string
  now_start :: Time
  now_sweep :: Time
  write_time :: Time
  AddDate :: "Time \<Rightarrow> int \<Rightarrow> int \<Rightarrow> int \<Rightarrow> Time"
  pg_dump :: "string list \<Rightarrow> byte list \<times> error option"
  pg_restore :: "string list \<Rightarrow> (path \<times> node) list \<Rightarrow> error option"
  gzip_stream :: "byte list \<Rightarrow> byte list"
  gzip_pending :: "byte list \<Rightarrow> nat"
  gunzip_header :: "byte list \<Rightarrow> error option"
  gunzip_body :: "byte list \<Rightarrow> byte list \<times> error option"
  fault_open :: "path \<Rightarrow> error option"
  fault_create :: "path \<Rightarrow> error option"
  fault_remove :: "path \<Rightarrow> error option"
  fault_read :: "path \<Rightarrow> error option"
  fault_write :: "path \<Rightarrow> (nat \<times> error) option"
  fault_lstat :: "path \<Rightarrow> error option"
  fault_readdir :: "path \<Rightarrow> error option"

subsection \<open>The operating system\<close>

text \<open>
  The file system is a table from paths to entries; a path names an entry by its spelling.
  \<^verbatim>\<open>os.Stat\<close> fails with "not exist" exactly on a path that is absent.
\<close>

definition os_Stat :: "world \<Rightarrow> path \<Rightarrow> error + node" where
  "os_Stat w p = (case map_of (files w) p of None \<Rightarrow> Inl ErrNotExist | Some n \<Rightarrow> Inr n)"

definition os_IsNotExist :: "error + 'a \<Rightarrow> bool" where
  "os_IsNotExist r = (case r of Inl e \<Rightarrow> e = ErrNotExist | Inr _ \<Rightarrow> False)"

definition os_Open :: "env \<Rightarrow> world \<Rightarrow> path \<Rightarrow> error option" where
  "os_Open e w p =
     (case fault_open e p of
        Some err \<Rightarrow> Some err
      | None \<Rightarrow> (case map_of (files w) p of None \<Rightarrow> Some ErrNotExist | Some n \<Rightarrow> None))"

definition new_file :: "env \<Rightarrow> node" where
  "new_file e = \<lparr>mode = ModeRegular, content = [], modTime = write_time e\<rparr>"

text \<open>\<^verbatim>\<open>os.Create\<close>: create the file or truncate it; a directory cannot be opened for writing.\<close>

definition os_Create :: "env \<Rightarrow> world \<Rightarrow> path \<Rightarrow> world \<times> error option" where
  "os_Create e w p =
     (case fault_create e p of
        Some err \<Rightarrow> (w, Some err)
      | None \<Rightarrow>
          (case map_of (files w) p of
             None \<Rightarrow> (w\<lparr>files := AList.update p (new_file e) (files w)\<rparr>, None)
           | Some n \<Rightarrow>
               if IsDir n then (w, Some ErrIsDir)
               else (w\<lparr>files := AList.update p (n\<lparr>content := [], modTime := write_time e\<rparr>) (files w)\<rparr>,
                     None)))"

text \<open>
  \<^verbatim>\<open>os.OpenFile(p, O_APPEND|O_CREATE|O_WRONLY, 0644)\<close>: an existing file is opened as it is,
  a missing one is created empty.
\<close>

definition os_OpenFile_append :: "env \<Rightarrow> world \<Rightarrow> path \<Rightarrow> world \<times> error option" where
  "os_OpenFile_append e w p =
     (case fault_open e p of
        Some err \<Rightarrow> (w, Some err)
      | None \<Rightarrow>
          (case map_of (files w) p of
             None \<Rightarrow> (w\<lparr>files := AList.update p (new_file e) (files w)\<rparr>, None)
           | Some n \<Rightarrow> if IsDir n then (w, Some ErrIsDir) else (w, None)))"

text \<open>\<^verbatim>\<open>os.Remove\<close>: the call is recorded; the entry goes when the call succeeds.\<close>

definition emit :: "world \<Rightarrow> event \<Rightarrow> world" where
  "emit w ev = w\<lparr>trace := trace w @ [ev]\<rparr>"

definition os_Remove :: "env \<Rightarrow> world \<Rightarrow> path \<Rightarrow> world \<times> error option" where
  "os_Remove e w p =
     (case fault_remove e p of
        Some err \<Rightarrow> (emit w (CallRemove p (Some err)), Some err)
      | None \<Rightarrow>
          (case map_of (files w) p of
             None \<Rightarrow> (emit w (CallRemove p (Some ErrNotExist)), Some ErrNotExist)
           | Some n \<Rightarrow> (emit (w\<lparr>files := AList.delete p (files w)\<rparr>) (CallRemove p None), None)))"

text \<open>Reading all of an open file: a directory cannot be read.\<close>

definition read_all :: "env \<Rightarrow> world \<Rightarrow> path \<Rightarrow> error + byte list" where
  "read_all e w p =
     (case fault_read e p of
        Some err \<Rightarrow> Inl err
      | None \<Rightarrow>
          (case map_of (files w) p of
             None \<Rightarrow> Inr []
           | Some n \<Rightarrow> if IsDir n then Inl ErrIsDir else Inr (content n)))"

text \<open>
  Writing through an open descriptor replaces what the file holds with \<open>bs\<close>, as far as
  the file takes it. A descriptor whose path has been unlinked changes no entry.
\<close>

definition set_content :: "env \<Rightarrow> world \<Rightarrow> path \<Rightarrow> byte list \<Rightarrow> world" where
  "set_content e w p bs =
     (case map_of (files w) p of
        None \<Rightarrow> w
      | Some n \<Rightarrow> w\<lparr>files := AList.update p (n\<lparr>content := bs, modTime := write_time e\<rparr>) (files w)\<rparr>)"

definition write_all :: "env \<Rightarrow> world \<Rightarrow> path \<Rightarrow> byte list \<Rightarrow> world \<times> error option" where
  "write_all e w p bs =
     (case fault_write e p of
        None \<Rightarrow> (set_content e w p bs, None)
      | Some (n, err) \<Rightarrow>
          if n < length bs then (set_content e w p (take n bs), Some err)
          else (set_content e w p bs, None))"

definition log_Printf :: "world \<Rightarrow> string \<Rightarrow> world" where
  "log_Printf w s = w\<lparr>logged := logged w @ [s]\<rparr>"

definition fmt_Println :: "world \<Rightarrow> string \<Rightarrow> world" where
  "fmt_Println w s = w\<lparr>stdout := stdout w @ [s]\<rparr>"

fun error_string :: "error \<Rightarrow> string" where
  "error_string ErrNotExist = ''no such file or directory''"
| "error_string ErrPermission = ''permission denied''"
| "error_string ErrIsDir = ''is a directory''"
| "error_string ErrNoSpace = ''no space left on device''"
| "error_string ErrIO = ''input/output error''"
| "error_string ErrHeader = ''gzip: invalid header''"
| "error_string ErrChecksum = ''gzip: invalid checksum''"
| "error_string ErrUnexpectedEOF = ''unexpected EOF''"
| "error_string ErrExecNotFound = ''executable file not found in $PATH''"
| "error_string (ExitError n) = ''exit status''"
| "error_string SkipDir = ''skip this directory''"

subsection \<open>compressFile and decompressFile\<close>

text \<open>
  \<^verbatim>\<open>io.Copy(gw, in)\<close> sends the source through the gzip writer. The writer hands the
  destination all of the stream but its last \<open>gzip_pending\<close> bytes; those are written by
  \<^verbatim>\<open>gw.Close()\<close>. That call is deferred, so it runs after the result of \<^verbatim>\<open>compressFile\<close> is
  fixed, and what it returns is dropped. After a failed write the writer writes no more.
\<close>

definition gzip_emitted :: "env \<Rightarrow> byte list \<Rightarrow> byte list" where
  "gzip_emitted e bs = take (length (gzip_stream e bs) - gzip_pending e bs) (gzip_stream e bs)"

definition compressFile :: "env \<Rightarrow> world \<Rightarrow> path \<Rightarrow> path \<Rightarrow> world \<times> error option" where
  "compressFile e w src dst =
     (case os_Open e w src of
        Some err \<Rightarrow> (w, Some err)
      | None \<Rightarrow>
          (case os_Create e w dst of
             (w1, Some err) \<Rightarrow> (w1, Some err)
           | (w1, None) \<Rightarrow>
               (case read_all e w1 src of
                  Inl err \<Rightarrow> (fst (write_all e w1 dst (gzip_stream e [])), Some err)
                | Inr bs \<Rightarrow>
                    (case write_all e w1 dst (gzip_emitted e bs) of
                       (w2, Some err) \<Rightarrow> (w2, Some err)
                     | (w2, None) \<Rightarrow> (fst (write_all e w2 dst (gzip_stream e bs)), None)))))"

text \<open>
  \<^verbatim>\<open>gzip.NewReader\<close> reads the header before the destination is created; \<^verbatim>\<open>io.Copy(out, gr)\<close>
  writes what the reader yields before it ends or fails.
\<close>

definition decompressFile :: "env \<Rightarrow> world \<Rightarrow> path \<Rightarrow> path \<Rightarrow> world \<times> error option" where
  "decompressFile e w src dst =
     (case os_Open e w src of
        Some err \<Rightarrow> (w, Some err)
      | None \<Rightarrow>
          (case read_all e w src of
             Inl err \<Rightarrow> (w, Some err)
           | Inr hd_bytes \<Rightarrow>
               (case gunzip_header e hd_bytes of
                  Some err \<Rightarrow> (w, Some err)
                | None \<Rightarrow>
                    (case os_Create e w dst of
                       (w1, Some err) \<Rightarrow> (w1, Some err)
                     | (w1, None) \<Rightarrow>
                         (case read_all e w1 src of
                            Inl err \<Rightarrow> (w1, Some err)
                          | Inr bs \<Rightarrow>
                              (case gunzip_body e bs of
                                 (plain, rerr) \<Rightarrow>
                                   (case write_all e w1 dst plain of
                                      (w2, Some werr) \<Rightarrow> (w2, Some werr)
                                    | (w2, None) \<Rightarrow> (w2, rerr))))))))"

subsection \<open>Paths and timestamps (package path/filepath and time.Format)\<close>

text \<open>
  \<^verbatim>\<open>filepath.Ext\<close> scans the path from its end and stops at the first separator: the
  extension is the suffix from the last dot of the last element.
\<close>

fun ext_scan :: "string \<Rightarrow> string \<Rightarrow> string" where
  "ext_scan [] acc = []"
| "ext_scan (c # cs) acc =
     (if c = CHR ''/'' then []
      else if c = CHR ''.'' then c # acc
      else ext_scan cs (c # acc))"

definition filepath_Ext :: "path \<Rightarrow> string" where
  "filepath_Ext p = ext_scan (rev p) []"

text \<open>The elements of a path, between its separators.\<close>

fun elements :: "string \<Rightarrow> string \<Rightarrow> string list" where
  "elements cur [] = [cur]"
| "elements cur (c # cs) =
     (if c = CHR ''/'' then cur # elements [] cs else elements (cur @ [c]) cs)"

fun join_sep :: "string list \<Rightarrow> string" where
  "join_sep [] = []"
| "join_sep [x] = x"
| "join_sep (x # y # ys) = x @ ''/'' @ join_sep (y # ys)"

text \<open>
  \<^verbatim>\<open>filepath.Clean\<close> on Unix, by the rules of its documentation: empty elements and \<open>.\<close> go,
  \<open>..\<close> takes the element before it away, \<open>..\<close> at the start of a rooted path goes, and
  the empty result is \<open>.\<close>.
\<close>

definition clean_step :: "bool \<Rightarrow> string list \<Rightarrow> string \<Rightarrow> string list" where
  "clean_step rooted out el =
     (if el = [] \<or> el = ''.'' then out
      else if el = ''..'' then
        (if out \<noteq> [] \<and> last out \<noteq> ''..'' then butlast out
         else if rooted then out
         else out @ [el])
      else out @ [el])"

definition filepath_Clean :: "path \<Rightarrow> path" where
  "filepath_Clean p =
     (if p = [] then ''.''
      else
        (let rooted = (hd p = CHR ''/'');
             out = foldl (clean_step rooted) [] (elements [] p)
         in if rooted then ''/'' @ join_sep out
            else if out = [] then ''.''
            else join_sep out))"

text \<open>\<^verbatim>\<open>filepath.Join\<close>: the elements from the first non-empty one, joined and cleaned.\<close>

definition filepath_Join :: "string list \<Rightarrow> path" where
  "filepath_Join elem =
     (case dropWhile (\<lambda>x. x = []) elem of
        [] \<Rightarrow> []
      | es \<Rightarrow> filepath_Clean (join_sep es))"

text \<open>Decimal digits, and \<^verbatim>\<open>appendInt\<close> of package time: zero-padded to a width.\<close>

fun digits :: "nat \<Rightarrow> string" where
  "digits n =
     (if n < 10 then [''0123456789'' ! n]
      else digits (n div 10) @ [''0123456789'' ! (n mod 10)])"

declare digits.simps [simp del]

definition appendInt :: "int \<Rightarrow> nat \<Rightarrow> string" where
  "appendInt x width =
     (let ds = digits (nat \<bar>x\<bar>)
      in (if x < 0 then ''-'' else []) @ replicate (width - length ds) (CHR ''0'') @ ds)"

definition show_int :: "int \<Rightarrow> string" where
  "show_int x = appendInt x 0"

text \<open>
  \<^verbatim>\<open>Time.Format\<close>: the layout is read from the left, and the first reference value found
  (\<^verbatim>\<open>nextStdChunk\<close>) is replaced by the field of the time. The cases here are the ones
  that start with a digit or an underscore; the others (names of months and days, zones,
  AM and PM, fractions of a second, the day of the year) start with a letter, a sign
  followed by \<^verbatim>\<open>07\<close>, a dot or a comma, or are \<^verbatim>\<open>002\<close> or \<^verbatim>\<open>__2\<close>, and the layout of this
  program has none of them.
\<close>

fun Format :: "Time \<Rightarrow> string \<Rightarrow> string" where
  "Format t [] = []"
| "Format t (c # cs) =
     (if c = CHR ''0'' \<and> take 1 cs = ''1'' then appendInt (int (Month t)) 2 @ Format t (drop 1 cs)
      else if c = CHR ''0'' \<and> take 1 cs = ''2'' then appendInt (int (Day t)) 2 @ Format t (drop 1 cs)
      else if c = CHR ''0'' \<and> take 1 cs = ''3'' then
        appendInt (int (if Hour t mod 12 = 0 then 12 else Hour t mod 12)) 2 @ Format t (drop 1 cs)
      else if c = CHR ''0'' \<and> take 1 cs = ''4'' then appendInt (int (Minute t)) 2 @ Format t (drop 1 cs)
      else if c = CHR ''0'' \<and> take 1 cs = ''5'' then appendInt (int (Second t)) 2 @ Format t (drop 1 cs)
      else if c = CHR ''0'' \<and> take 1 cs = ''6'' then appendInt (Year t mod 100) 2 @ Format t (drop 1 cs)
      else if c = CHR ''1'' \<and> take 1 cs = ''5'' then appendInt (int (Hour t)) 2 @ Format t (drop 1 cs)
      else if c = CHR ''1'' then appendInt (int (Month t)) 0 @ Format t cs
      else if c = CHR ''2'' \<and> take 3 cs = ''006'' then appendInt (Year t) 4 @ Format t (drop 3 cs)
      else if c = CHR ''2'' then appendInt (int (Day t)) 0 @ Format t cs
      else if c = CHR ''_'' \<and> take 4 cs = ''2006'' then c # appendInt (Year t) 4 @ Format t (drop 4 cs)
      else if c = CHR ''_'' \<and> take 1 cs = ''2'' then
        (if Day t < 10 then '' '' else []) @ appendInt (int (Day t)) 0 @ Format t (drop 1 cs)
      else if c = CHR ''3'' then
        appendInt (int (if Hour t mod 12 = 0 then 12 else Hour t mod 12)) 0 @ Format t cs
      else if c = CHR ''4'' then appendInt (int (Minute t)) 0 @ Format t cs
      else if c = CHR ''5'' then appendInt (int (Second t)) 0 @ Format t cs
      else c # Format t cs)"

declare Format.simps(2) [simp del]

text \<open>\<^verbatim>\<open>s[:hi]\<close>: the slice panics when \<open>hi\<close> is not within the string.\<close>

definition slice_to :: "string \<Rightarrow> int \<Rightarrow> string option" where
  "slice_to s hi = (if 0 \<le> hi \<and> hi \<le> int (length s) then Some (take (nat hi) s) else None)"

subsection \<open>filepath.Walk\<close>

text \<open>
  \<^verbatim>\<open>Walk\<close> reads the names in a directory, sorted, and calls \<^verbatim>\<open>Lstat\<close> on each entry as
  it reaches it. The sweep's callback removes nothing but the entry it is visiting, and
  never a directory, so what \<^verbatim>\<open>Walk\<close> sees is the tree as it is when the walk starts:
  \<open>observe\<close> builds that tree from the table, and \<open>walk\<close> runs the callback over it.
\<close>

definition os_Lstat :: "env \<Rightarrow> (path \<times> node) list \<Rightarrow> path \<Rightarrow> error + node" where
  "os_Lstat e fs p =
     (case fault_lstat e p of
        Some err \<Rightarrow> Inl err
      | None \<Rightarrow> (case map_of fs p of None \<Rightarrow> Inl ErrNotExist | Some n \<Rightarrow> Inr n))"

definition base_name :: "path \<Rightarrow> string" where
  "base_name p = last (elements [] p)"

text \<open>The names in directory \<open>d\<close>: those whose path, as \<^verbatim>\<open>Walk\<close> joins it, is in the table.\<close>

definition readDirNames :: "(path \<times> node) list \<Rightarrow> path \<Rightarrow> string list" where
  "readDirNames fs d =
     sort (remdups (map base_name
       (filter (\<lambda>q. base_name q \<noteq> [] \<and> base_name q \<noteq> ''.'' \<and> base_name q \<noteq> ''..''
                    \<and> filepath_Join [d, base_name q] = q)
               (map fst fs))))"

text \<open>
  An entry as \<^verbatim>\<open>Walk\<close> meets it: its path, what \<^verbatim>\<open>Lstat\<close> returned, the error of reading
  its names (a directory), and the entries below it in the order of their names.
\<close>

datatype snap = Snap path "error + node" "error option" "snap list"

text \<open>
  Below an entry the table is used without that entry: a directory is not under itself.
\<close>

function observe :: "env \<Rightarrow> (path \<times> node) list \<Rightarrow> path \<Rightarrow> node \<Rightarrow> snap" where
  "observe e fs p info =
     (if \<not> IsDir info then Snap p (Inr info) None []
      else
        (case fault_readdir e p of
           Some err \<Rightarrow> Snap p (Inr info) (Some err) []
         | None \<Rightarrow>
             Snap p (Inr info) None
               (map (\<lambda>name.
                       case os_Lstat e fs (filepath_Join [p, name]) of
                         Inl err \<Rightarrow> Snap (filepath_Join [p, name]) (Inl err) None []
                       | Inr fi \<Rightarrow>
                           observe e (AList.delete (filepath_Join [p, name]) fs)
                             (filepath_Join [p, name]) fi)
                    (readDirNames fs p))))"
  by pat_completeness auto
termination
proof (relation "measure (\<lambda>(e, fs, p, info). length fs)", goal_cases)
  case 1
  show ?case by simp
next
  case (2 e fs p info name fi)
  from 2(3) have "filepath_Join [p, name] \<in> fst ` set fs"
    by (auto simp: readDirNames_def)
  then obtain v where "(filepath_Join [p, name], v) \<in> set fs" by auto
  then have "length (AList.delete (filepath_Join [p, name]) fs) < length fs"
    unfolding AList.delete_eq
    by (intro length_filter_less [where x = "(filepath_Join [p, name], v)"]) auto
  then show ?case by simp
qed

declare observe.simps [simp del]

type_synonym 's walkFunc = "'s \<Rightarrow> path \<Rightarrow> node option \<Rightarrow> error option \<Rightarrow> 's \<times> error option"

text \<open>
  \<^verbatim>\<open>walk\<close> of package filepath: a file is handed to the callback; a directory is handed to
  it with the error of reading its names, and its entries are walked while no error comes
  back. \<^verbatim>\<open>SkipDir\<close> from a directory skips it.
\<close>

fun walk :: "'s walkFunc \<Rightarrow> snap \<Rightarrow> 's \<Rightarrow> 's \<times> error option"
and walk_names :: "'s walkFunc \<Rightarrow> snap list \<Rightarrow> 's \<Rightarrow> 's \<times> error option" where
  "walk fn (Snap p (Inl err) rd cs) s = fn s p None (Some err)"
| "walk fn (Snap p (Inr info) rd cs) s =
     (if \<not> IsDir info then fn s p (Some info) None
      else
        (case fn s p (Some info) rd of
           (s1, err1) \<Rightarrow>
             if rd \<noteq> None \<or> err1 \<noteq> None then (s1, err1)
             else walk_names fn cs s1))"
| "walk_names fn [] s = (s, None)"
| "walk_names fn (Snap q (Inl err) rd cs # rest) s =
     (case fn s q None (Some err) of
        (s1, err1) \<Rightarrow>
          if err1 \<noteq> None \<and> err1 \<noteq> Some SkipDir then (s1, err1)
          else walk_names fn rest s1)"
| "walk_names fn (Snap q (Inr fi) rd cs # rest) s =
     (case walk fn (Snap q (Inr fi) rd cs) s of
        (s1, err1) \<Rightarrow>
          if err1 \<noteq> None \<and> (\<not> IsDir fi \<or> err1 \<noteq> Some SkipDir) then (s1, err1)
          else walk_names fn rest s1)"

definition filepath_Walk ::
  "env \<Rightarrow> (path \<times> node) list \<Rightarrow> path \<Rightarrow> 's walkFunc \<Rightarrow> 's \<Rightarrow> 's \<times> error option" where
  "filepath_Walk e fs root fn s =
     (case (case os_Lstat e fs root of
              Inl err \<Rightarrow> fn s root None (Some err)
            | Inr info \<Rightarrow> walk fn (observe e fs root info) s) of
        (s1, err) \<Rightarrow> if err = Some SkipDir then (s1, None) else (s1, err))"

subsection \<open>cleanupOldBackups\<close>

text \<open>
  The callback of the sweep. \<^verbatim>\<open>Walk\<close> passes no entry without an error, so the case of
  neither is never run.
\<close>

definition sweepFn :: "env \<Rightarrow> Time \<Rightarrow> world walkFunc" where
  "sweepFn e cutoff w p info err =
     (case err of
        Some x \<Rightarrow> (w, Some x)
      | None \<Rightarrow>
          (case info of
             None \<Rightarrow> (w, None)
           | Some i \<Rightarrow>
               if \<not> IsDir i \<and> filepath_Ext p = ''.gz'' then
                 (if Before (ModTime i) cutoff then
                    (case os_Remove e w p of
                       (w1, None) \<Rightarrow> (log_Printf w1 (''INFO: Deleted old backup: '' @ p), None)
                     | (w1, Some rmErr) \<Rightarrow>
                         (log_Printf w1 (''WARNING: Failed to delete '' @ p @ '': '' @ error_string rmErr),
                          None))
                  else (w, None))
               else (w, None)))"

definition cutoff_of :: "env \<Rightarrow> int \<Rightarrow> Time" where
  "cutoff_of e retentionDays = AddDate e (now_sweep e) 0 0 (- retentionDays)"

definition cleanupOldBackups :: "env \<Rightarrow> world \<Rightarrow> path \<Rightarrow> int \<Rightarrow> world" where
  "cleanupOldBackups e w backupDir retentionDays =
     (let w1 = fmt_Println
                 (log_Printf w (''INFO: Cleaning up backups older than '' @ show_int retentionDays @ '' days.''))
                 ''Cleaning up old backups...'';
          cutoff = cutoff_of e retentionDays;
          w2 = fst (filepath_Walk e (files w1) backupDir (sweepFn e cutoff) w1)
      in fmt_Println (log_Printf w2 ''SUCCESS: Cleanup complete.'') ''Cleanup complete.'')"

subsection \<open>Running the external programs\<close>

text \<open>
  \<^verbatim>\<open>PGPASSWORD\<close> is added to the environment of the child when it is set. \<^verbatim>\<open>cmd.Run()\<close>
  waits for the child; the standard output of \<^verbatim>\<open>pg_dump\<close> is the dump file, which holds
  what the child wrote also when the child fails.
\<close>

definition cmd_Env :: "env \<Rightarrow> string list" where
  "cmd_Env e = (if PGPASSWORD e \<noteq> [] then [''PGPASSWORD='' @ PGPASSWORD e] else [])"

definition run_pg_dump :: "env \<Rightarrow> world \<Rightarrow> string list \<Rightarrow> path \<Rightarrow> world \<times> error option" where
  "run_pg_dump e w args outFile =
     (case pg_dump e args of
        (bs, r) \<Rightarrow> (emit (set_content e w outFile bs) (CallExec ''pg_dump'' args (cmd_Env e) r), r))"

definition run_pg_restore :: "env \<Rightarrow> world \<Rightarrow> string list \<Rightarrow> world \<times> error option" where
  "run_pg_restore e w args =
     (let r = pg_restore e args (files w)
      in (emit w (CallExec ''pg_restore'' args (cmd_Env e) r), r))"

text \<open>The two calls of the codec, noted in the trace with their results.\<close>

definition call_compressFile :: "env \<Rightarrow> world \<Rightarrow> path \<Rightarrow> path \<Rightarrow> world \<times> error option" where
  "call_compressFile e w src dst =
     (case compressFile e w src dst of (w1, r) \<Rightarrow> (emit w1 (CallCompress src dst r), r))"

definition call_decompressFile :: "env \<Rightarrow> world \<Rightarrow> path \<Rightarrow> path \<Rightarrow> world \<times> error option" where
  "call_decompressFile e w src dst =
     (case decompressFile e w src dst of (w1, r) \<Rightarrow> (emit w1 (CallDecompress src dst r), r))"

subsection \<open>runBackup\<close>

definition backup_layout :: string where
  "backup_layout = ''2006-01-02_150405''"

text \<open>The local variable \<^verbatim>\<open>backupFile\<close> of \<^verbatim>\<open>runBackup\<close>.\<close>

definition backupFile_of :: "env \<Rightarrow> path \<Rightarrow> string \<Rightarrow> path" where
  "backupFile_of e backupDir dbName =
     filepath_Join [backupDir, dbName @ ''_'' @ Format (now_start e) backup_layout @ ''.dump'']"

text \<open>
  \<^verbatim>\<open>os.Exit\<close> ends the process at once: calls that were deferred do not run. The deferred
  calls of \<^verbatim>\<open>runBackup\<close> close files and change nothing that is modelled here.
\<close>

definition runBackup ::
  "env \<Rightarrow> world \<Rightarrow> string \<Rightarrow> string \<Rightarrow> string \<Rightarrow> path \<Rightarrow> path \<Rightarrow> int \<Rightarrow> world \<times> outcome" where
  "runBackup e w dbName dbUser dbHost backupDir logFile retentionDays =
     (if dbName = [] then (fmt_Println w ''Error: Database name is required.'', Exited 1)
      else if os_IsNotExist (os_Stat w backupDir) then
        (fmt_Println w (''Error: Backup directory '' @ [CHR 39] @ backupDir @ [CHR 39] @ '' not found.''),
         Exited 1)
      else
        (case os_OpenFile_append e w logFile of
           (w1, Some err) \<Rightarrow>
             (fmt_Println w1 (''Error: Cannot open log file '' @ [CHR 39] @ logFile @ [CHR 39] @ '': ''
                              @ error_string err),
              Exited 1)
         | (w1, None) \<Rightarrow>
             (let backupFile = backupFile_of e backupDir dbName;
                  w2 = fmt_Println
                         (log_Printf w1 (''INFO: Starting backup for database '' @ [CHR 39] @ dbName @ [CHR 39] @ ''.''))
                         (''Starting backup for database '' @ [CHR 39] @ dbName @ [CHR 39] @ ''...'')
              in case os_Create e w2 backupFile of
                   (w3, Some err) \<Rightarrow>
                     (fmt_Println
                        (log_Printf w3 (''ERROR: Cannot create backup file: '' @ error_string err))
                        ''Backup failed.'',
                      Exited 1)
                 | (w3, None) \<Rightarrow>
                     (case run_pg_dump e w3 [''-U'', dbUser, ''-h'', dbHost, ''-Fc'', dbName] backupFile of
                        (w4, Some err) \<Rightarrow>
                          (fst (os_Remove e
                                  (fmt_Println
                                     (log_Printf w4 (''ERROR: Backup failed: '' @ error_string err))
                                     ''Backup failed. Check log for details.'')
                                  backupFile),
                           Exited 1)
                      | (w4, None) \<Rightarrow>
                          (let compressedFile = backupFile @ ''.gz''
                           in case call_compressFile e w4 backupFile compressedFile of
                                (w5, Some err) \<Rightarrow>
                                  (fmt_Println
                                     (log_Printf w5 (''ERROR: Compression failed: '' @ error_string err))
                                     ''Compression failed.'',
                                   Exited 1)
                              | (w5, None) \<Rightarrow>
                                  (let w6 = fst (os_Remove e w5 backupFile);
                                       w7 = fmt_Println
                                              (log_Printf w6 (''SUCCESS: Backup completed. File: '' @ compressedFile))
                                              (''Backup successful: '' @ compressedFile)
                                   in (cleanupOldBackups e w7 backupDir retentionDays, Returned)))))))"

subsection \<open>runRestore\<close>

text \<open>
  \<^verbatim>\<open>defer os.Remove(tempFile)\<close> is registered once \<^verbatim>\<open>decompressFile\<close> has returned without
  error. It runs when \<^verbatim>\<open>runRestore\<close> returns; the \<^verbatim>\<open>os.Exit(1)\<close> after a failed
  \<^verbatim>\<open>pg_restore\<close> ends the process before that.
\<close>

definition runRestore ::
  "env \<Rightarrow> world \<Rightarrow> string \<Rightarrow> string \<Rightarrow> string \<Rightarrow> path \<Rightarrow> path \<Rightarrow> world \<times> outcome" where
  "runRestore e w dbName dbUser dbHost backupFile logFile =
     (if dbName = [] \<or> backupFile = [] then
        (fmt_Println w ''Error: Database name and backup file are required.'', Exited 1)
      else
        (case os_OpenFile_append e w logFile of
           (w1, Some err) \<Rightarrow>
             (fmt_Println w1 (''Error: Cannot open log file '' @ [CHR 39] @ logFile @ [CHR 39] @ '': ''
                              @ error_string err),
              Exited 1)
         | (w1, None) \<Rightarrow>
             (let w2 = fmt_Println
                         (log_Printf w1 (''INFO: Starting restore for database '' @ [CHR 39] @ dbName @ [CHR 39]
                                         @ '' from '' @ [CHR 39] @ backupFile @ [CHR 39] @ ''.''))
                         (''Restoring database '' @ [CHR 39] @ dbName @ [CHR 39] @ '' from ''
                          @ [CHR 39] @ backupFile @ [CHR 39] @ ''...'')
              in case slice_to backupFile (int (length backupFile) - 3) of
                   None \<Rightarrow> (w2, Panicked)
                 | Some tempFile \<Rightarrow>
                     (case call_decompressFile e w2 backupFile tempFile of
                        (w3, Some err) \<Rightarrow>
                          (fmt_Println
                             (log_Printf w3 (''ERROR: Decompression failed: '' @ error_string err))
                             ''Decompression failed.'',
                           Exited 1)
                      | (w3, None) \<Rightarrow>
                          (case run_pg_restore e w3
                                  [''-U'', dbUser, ''-h'', dbHost, ''-d'', dbName, ''--clean'', tempFile] of
                             (w4, Some err) \<Rightarrow>
                               (fmt_Println
                                  (log_Printf w4 (''ERROR: Restore failed: '' @ error_string err))
                                  ''Restore failed. Check log for details.'',
                                Exited 1)
                           | (w4, None) \<Rightarrow>
                               (fst (os_Remove e
                                       (fmt_Println
                                          (log_Printf w4 (''SUCCESS: Restore completed for database ''
                                                          @ [CHR 39] @ dbName @ [CHR 39] @ ''.''))
                                          ''Restore completed successfully.'')
                                       tempFile),
                                Returned))))))"

subsection \<open>What the sweep visits and what it removes\<close>

text \<open>
  The entries that \<^verbatim>\<open>Walk\<close> hands to its callback, in order, are what a callback that only
  writes them down and passes the error on collects. The sweep's callback passes the
  error on in the same way.
\<close>

type_synonym visit = "path \<times> node option \<times> error option"

definition record_visit :: "visit list walkFunc" where
  "record_visit s p info err = (s @ [(p, info, err)], err)"

definition visits :: "snap \<Rightarrow> visit list" where
  "visits t = fst (walk record_visit t [])"

definition root_snap :: "env \<Rightarrow> (path \<times> node) list \<Rightarrow> path \<Rightarrow> snap" where
  "root_snap e fs root =
     (case os_Lstat e fs root of
        Inl err \<Rightarrow> Snap root (Inl err) None []
      | Inr info \<Rightarrow> observe e fs root info)"

definition sweep_visits :: "env \<Rightarrow> (path \<times> node) list \<Rightarrow> path \<Rightarrow> visit list" where
  "sweep_visits e fs root = visits (root_snap e fs root)"


text \<open>Running a callback over a list of visits, without the walk.\<close>

definition replay :: "'s walkFunc \<Rightarrow> 's \<Rightarrow> visit list \<Rightarrow> 's" where
  "replay fn s vs = foldl (\<lambda>s v. fst (fn s (fst v) (fst (snd v)) (snd (snd v)))) s vs"

text \<open>The paths on which \<^verbatim>\<open>os.Remove\<close> was called, in the order of the calls.\<close>

fun removed_paths :: "event list \<Rightarrow> path list" where
  "removed_paths [] = []"
| "removed_paths (CallRemove p r # evs) = p # removed_paths evs"
| "removed_paths (ev # evs) = removed_paths evs"

text \<open>
  An entry that was visited without error is expired when it is not a directory, its
  extension is \<^verbatim>\<open>.gz\<close> and it was last modified before the cutoff. The second predicate
  asks for a regular file instead.
\<close>

fun expired :: "Time \<Rightarrow> visit \<Rightarrow> bool" where
  "expired cutoff (p, Some i, None) =
     (\<not> IsDir i \<and> filepath_Ext p = ''.gz'' \<and> Before (ModTime i) cutoff)"
| "expired cutoff (p, info, err) = False"

fun expired_regular :: "Time \<Rightarrow> visit \<Rightarrow> bool" where
  "expired_regular cutoff (p, Some i, None) =
     (IsRegular i \<and> filepath_Ext p = ''.gz'' \<and> Before (ModTime i) cutoff)"
| "expired_regular cutoff (p, info, err) = False"

subsection \<open>The name of a backup, as the specification writes it\<close>

text \<open>
  The timestamp \<^verbatim>\<open>YYYY-MM-DD_HHMMSS\<close>, digit by digit, and the path
  \<^verbatim>\<open>backupDir/db_<timestamp>.dump\<close>. A time is valid when its fields are those of a date of
  the years 0 to 9999; a directory path is clean when \<^verbatim>\<open>filepath.Clean\<close> leaves it as it is
  and it is neither \<^verbatim>\<open>.\<close> nor the root; a name is plain when it has no separator.
\<close>

definition digit :: "nat \<Rightarrow> char" where
  "digit d = ''0123456789'' ! d"

definition two_digits :: "nat \<Rightarrow> string" where
  "two_digits n = [digit (n div 10 mod 10), digit (n mod 10)]"

definition four_digits :: "nat \<Rightarrow> string" where
  "four_digits n =
     [digit (n div 1000 mod 10), digit (n div 100 mod 10), digit (n div 10 mod 10), digit (n mod 10)]"

definition spec_timestamp :: "Time \<Rightarrow> string" where
  "spec_timestamp t =
     four_digits (nat (Year t)) @ ''-'' @ two_digits (Month t) @ ''-'' @ two_digits (Day t) @ ''_''
     @ two_digits (Hour t) @ two_digits (Minute t) @ two_digits (Second t)"

definition spec_backup_path :: "path \<Rightarrow> string \<Rightarrow> Time \<Rightarrow> path" where
  "spec_backup_path backupDir db t = backupDir @ ''/'' @ db @ ''_'' @ spec_timestamp t @ ''.dump''"

definition valid_time :: "Time \<Rightarrow> bool" where
  "valid_time t =
     (0 \<le> Year t \<and> Year t \<le> 9999 \<and> 1 \<le> Month t \<and> Month t \<le> 12 \<and> 1 \<le> Day t \<and> Day t \<le> 31
      \<and> Hour t < 24 \<and> Minute t < 60 \<and> Second t < 60)"

definition clean_dir :: "path \<Rightarrow> bool" where
  "clean_dir d = (d \<noteq> [] \<and> filepath_Clean d = d \<and> d \<noteq> ''.'' \<and> d \<noteq> ''/'')"

definition plain_name :: "string \<Rightarrow> bool" where
  "plain_name n = (n \<noteq> [] \<and> CHR ''/'' \<notin> set n)"

subsection \<open>Conditions on a run\<close>

text \<open>
  The operating system does not fail on path \<open>p\<close>; and \<open>p\<close> is absent or is not a
  directory.
\<close>

definition no_faults :: "env \<Rightarrow> path \<Rightarrow> bool" where
  "no_faults e p =
     (fault_open e p = None \<and> fault_create e p = None \<and> fault_read e p = None \<and> fault_write e p = None)"

definition not_a_directory :: "world \<Rightarrow> path \<Rightarrow> bool" where
  "not_a_directory w p = (case map_of (files w) p of None \<Rightarrow> True | Some n \<Rightarrow> \<not> IsDir n)"

subsection \<open>Example environments\<close>

text \<open>
  A codec that stores the bytes between a two-byte magic number and an end marker, a clock
  without daylight saving, external programs that succeed, and an operating system that
  does not fail. The examples below change one of these at a time.
\<close>

definition store_stream :: "byte list \<Rightarrow> byte list" where
  "store_stream bs = [31, 139] @ bs @ [0]"

definition store_header :: "byte list \<Rightarrow> error option" where
  "store_header d = (if take 2 d = [31, 139] then None else Some ErrHeader)"

definition store_body :: "byte list \<Rightarrow> byte list \<times> error option" where
  "store_body d =
     (if 3 \<le> length d \<and> last d = 0 then (butlast (drop 2 d), None)
      else (drop 2 d, Some ErrUnexpectedEOF))"

definition clock_at :: "int \<Rightarrow> nat \<Rightarrow> nat \<Rightarrow> Time" where
  "clock_at secs m s =
     \<lparr>unixNano = secs * 1000000000, Year = 2025, Month = 8, Day = 9, Hour = 11, Minute = m, Second = s\<rparr>"

definition add_days :: "Time \<Rightarrow> int \<Rightarrow> int \<Rightarrow> int \<Rightarrow> Time" where
  "add_days t years months days = t\<lparr>unixNano := unixNano t + days * 86400000000000\<rparr>"

definition env_ok :: env where
  "env_ok =
     \<lparr>PGPASSWORD = [],
      now_start = clock_at 1754739720 42 0,
      now_sweep = clock_at 1754739725 42 5,
      write_time = clock_at 1754739723 42 3,
      AddDate = add_days,
      pg_dump = (\<lambda>args. ([1, 2, 3], None)),
      pg_restore = (\<lambda>args fs. None),
      gzip_stream = store_stream,
      gzip_pending = (\<lambda>bs. 1),
      gunzip_header = store_header,
      gunzip_body = store_body,
      fault_open = (\<lambda>p. None),
      fault_create = (\<lambda>p. None),
      fault_remove = (\<lambda>p. None),
      fault_read = (\<lambda>p. None),
      fault_write = (\<lambda>p. None),
      fault_lstat = (\<lambda>p. None),
      fault_readdir = (\<lambda>p. None)\<rparr>"

definition dir_node :: node where
  "dir_node = \<lparr>mode = ModeDir, content = [], modTime = clock_at 1754000000 0 0\<rparr>"

definition world_b :: world where
  "world_b = \<lparr>files = [(''/b'', dir_node)], trace = [], logged = [], stdout = []\<rparr>"

definition env_dump_fails :: env where
  "env_dump_fails = env_ok\<lparr>pg_dump := (\<lambda>args. ([1], Some (ExitError 1)))\<rparr>"

definition env_disk_full :: env where
  "env_disk_full =
     env_ok\<lparr>fault_write :=
              (\<lambda>p. if p = ''/b/mydb_2025-08-09_114200.dump.gz'' then Some (2, ErrNoSpace) else None)\<rparr>"

definition file_node :: "byte list \<Rightarrow> node" where
  "file_node bs = \<lparr>mode = ModeRegular, content = bs, modTime = clock_at 1754000000 0 0\<rparr>"

definition world_dump :: world where
  "world_dump =
     \<lparr>files = [(''/b'', dir_node), (''/b/x.dump'', file_node [7, 8, 9])],
      trace = [], logged = [], stdout = []\<rparr>"

definition world_artifact :: world where
  "world_artifact =
     \<lparr>files = [(''/b'', dir_node), (''/b/mydb.dump.gz'', file_node (store_stream [7, 8, 9]))],
      trace = [], logged = [], stdout = []\<rparr>"

definition world_cut_artifact :: world where
  "world_cut_artifact =
     \<lparr>files = [(''/b'', dir_node), (''/b/mydb.dump.gz'', file_node [31, 139, 7, 8])],
      trace = [], logged = [], stdout = []\<rparr>"

definition env_trailer_lost :: env where
  "env_trailer_lost =
     env_ok\<lparr>fault_write := (\<lambda>p. if filepath_Ext p = ''.gz'' then Some (5, ErrNoSpace) else None)\<rparr>"

definition env_restore_fails :: env where
  "env_restore_fails = env_ok\<lparr>pg_restore := (\<lambda>args fs. Some (ExitError 1))\<rparr>"

text \<open>
  A backup directory for the sweep, seen five seconds after \<open>now_start\<close>: compressed
  files modified one day and eight days ago, and, all modified thirty days ago, a symbolic
  link and a directory whose names end in \<^verbatim>\<open>.gz\<close> and a dump that was never compressed.
\<close>

definition aged :: "fileMode \<Rightarrow> int \<Rightarrow> node" where
  "aged m days = \<lparr>mode = m, content = [], modTime = clock_at (1754739725 - days * 86400) 0 0\<rparr>"

definition world_sweep :: world where
  "world_sweep =
     \<lparr>files = [(''/b'', dir_node),
               (''/b/new.dump.gz'', aged ModeRegular 1),
               (''/b/old.dump.gz'', aged ModeRegular 8),
               (''/b/link.gz'', aged ModeSymlink 30),
               (''/b/sub.gz'', aged ModeDir 30),
               (''/b/old.dump'', aged ModeRegular 30)],
      trace = [], logged = [], stdout = []\<rparr>"

section \<open>Properties\<close>

subsection \<open>What logging, printing and noting a call leave alone\<close>

lemma emit_fields [simp]:
  "files (emit w ev) = files w" "trace (emit w ev) = trace w @ [ev]"
  "logged (emit w ev) = logged w" "stdout (emit w ev) = stdout w"
  by (simp_all add: emit_def)

lemma log_Printf_fields [simp]:
  "files (log_Printf w s) = files w" "trace (log_Printf w s) = trace w"
  "logged (log_Printf w s) = logged w @ [s]" "stdout (log_Printf w s) = stdout w"
  by (simp_all add: log_Printf_def)

lemma fmt_Println_fields [simp]:
  "files (fmt_Println w s) = files w" "trace (fmt_Println w s) = trace w"
  "logged (fmt_Println w s) = logged w" "stdout (fmt_Println w s) = stdout w @ [s]"
  by (simp_all add: fmt_Println_def)

subsection \<open>What each call changes\<close>

lemma set_content_fields [simp]:
  "trace (set_content e w p bs) = trace w" "logged (set_content e w p bs) = logged w"
  "stdout (set_content e w p bs) = stdout w"
  by (simp_all add: set_content_def split: option.splits)

lemma set_content_lookup:
  "map_of (files (set_content e w p bs)) q =
     (if q = p then map_option (\<lambda>n. n\<lparr>content := bs, modTime := write_time e\<rparr>) (map_of (files w) p)
      else map_of (files w) q)"
  by (simp add: set_content_def update_conv' split: option.splits)

lemma write_all_fst [simp]:
  "trace (fst (write_all e w p bs)) = trace w" "logged (fst (write_all e w p bs)) = logged w"
  "stdout (fst (write_all e w p bs)) = stdout w"
  "q \<noteq> p \<Longrightarrow> map_of (files (fst (write_all e w p bs))) q = map_of (files w) q"
  "map_of (files (fst (write_all e w p bs))) p = None \<longleftrightarrow> map_of (files w) p = None"
  by (auto simp: write_all_def set_content_lookup split: option.splits if_splits)

lemma write_all_ok:
  "snd (write_all e w p bs) = None \<Longrightarrow>
   map_of (files (fst (write_all e w p bs))) p =
     map_option (\<lambda>n. n\<lparr>content := bs, modTime := write_time e\<rparr>) (map_of (files w) p)"
  by (auto simp: write_all_def set_content_lookup split: option.splits if_splits)

lemma write_all_result:
  assumes "write_all e w p bs = (w', r)"
  shows "trace w' = trace w" "logged w' = logged w" "stdout w' = stdout w"
    and "q \<noteq> p \<Longrightarrow> map_of (files w') q = map_of (files w) q"
    and "map_of (files w') p = None \<longleftrightarrow> map_of (files w) p = None"
    and "r = None \<Longrightarrow> map_of (files w') p = map_option (\<lambda>n. n\<lparr>content := bs, modTime := write_time e\<rparr>) (map_of (files w) p)"
proof -
  have w': "w' = fst (write_all e w p bs)" and r: "r = snd (write_all e w p bs)"
    by (simp_all add: assms)
  show "trace w' = trace w" "logged w' = logged w" "stdout w' = stdout w"
    "q \<noteq> p \<Longrightarrow> map_of (files w') q = map_of (files w) q"
    "map_of (files w') p = None \<longleftrightarrow> map_of (files w) p = None"
    by (simp_all add: w')
  show "r = None \<Longrightarrow> map_of (files w') p = map_option (\<lambda>n. n\<lparr>content := bs, modTime := write_time e\<rparr>) (map_of (files w) p)"
    unfolding w' r by (rule write_all_ok)
qed

lemma os_Create_result:
  assumes "os_Create e w p = (w', r)"
  shows "trace w' = trace w" "logged w' = logged w" "stdout w' = stdout w"
    and "q \<noteq> p \<Longrightarrow> map_of (files w') q = map_of (files w) q"
    and "r = None \<Longrightarrow> \<exists>n. map_of (files w') p = Some n \<and> \<not> IsDir n \<and> content n = []"
    and "r \<noteq> None \<Longrightarrow> w' = w"
  using assms by (auto simp: os_Create_def update_conv' new_file_def IsDir_def split: option.splits if_splits)

lemma os_OpenFile_append_result:
  assumes "os_OpenFile_append e w p = (w', r)"
  shows "trace w' = trace w" "logged w' = logged w" "stdout w' = stdout w"
    and "q \<noteq> p \<Longrightarrow> map_of (files w') q = map_of (files w) q"
    and "r \<noteq> None \<Longrightarrow> w' = w"
  using assms by (auto simp: os_OpenFile_append_def update_conv' split: option.splits if_splits)

lemma os_Remove_result:
  assumes "os_Remove e w p = (w', r)"
  shows "trace w' = trace w @ [CallRemove p r]" "logged w' = logged w" "stdout w' = stdout w"
    and "q \<noteq> p \<Longrightarrow> map_of (files w') q = map_of (files w) q"
    and "r = None \<Longrightarrow> map_of (files w') p = None"
    and "r \<noteq> None \<Longrightarrow> files w' = files w"
    and "fault_remove e p = None \<Longrightarrow> map_of (files w') p = None"
    and "fault_remove e p = None \<Longrightarrow> map_of (files w) p \<noteq> None \<Longrightarrow> r = None"
  using assms by (auto simp: os_Remove_def delete_conv' split: option.splits if_splits)

lemma run_pg_dump_result:
  assumes "run_pg_dump e w args p = (w', r)"
  shows "trace w' = trace w @ [CallExec ''pg_dump'' args (cmd_Env e) r]" "logged w' = logged w" "stdout w' = stdout w"
    and "r = snd (pg_dump e args)"
    and "q \<noteq> p \<Longrightarrow> map_of (files w') q = map_of (files w) q"
    and "map_of (files w') p = map_option (\<lambda>n. n\<lparr>content := fst (pg_dump e args), modTime := write_time e\<rparr>) (map_of (files w) p)"
  using assms by (auto simp: run_pg_dump_def set_content_lookup split: prod.splits)

lemma compressFile_result:
  assumes "compressFile e w src dst = (w', r)"
  shows "trace w' = trace w" "logged w' = logged w" "stdout w' = stdout w"
    and "q \<noteq> dst \<Longrightarrow> map_of (files w') q = map_of (files w) q"
  using assms
  by (auto simp: compressFile_def os_Create_result write_all_result split: option.splits prod.splits sum.splits)

lemma decompressFile_result:
  assumes "decompressFile e w src dst = (w', r)"
  shows "trace w' = trace w" "logged w' = logged w" "stdout w' = stdout w"
    and "q \<noteq> dst \<Longrightarrow> map_of (files w') q = map_of (files w) q"
  using assms
  by (auto simp: decompressFile_def os_Create_result write_all_result split: option.splits prod.splits sum.splits)

lemma call_compressFile_result:
  assumes "call_compressFile e w src dst = (w', r)"
  shows "trace w' = trace w @ [CallCompress src dst r]" "logged w' = logged w" "stdout w' = stdout w"
    and "q \<noteq> dst \<Longrightarrow> map_of (files w') q = map_of (files w) q"
  using assms by (auto simp: call_compressFile_def compressFile_result split: prod.splits)

lemma call_decompressFile_result:
  assumes "call_decompressFile e w src dst = (w', r)"
  shows "trace w' = trace w @ [CallDecompress src dst r]" "logged w' = logged w" "stdout w' = stdout w"
    and "q \<noteq> dst \<Longrightarrow> map_of (files w') q = map_of (files w) q"
  using assms by (auto simp: call_decompressFile_def decompressFile_result split: prod.splits)

lemma os_Remove_fst [simp]:
  "trace (fst (os_Remove e w p)) = trace w @ [CallRemove p (snd (os_Remove e w p))]"
  "logged (fst (os_Remove e w p)) = logged w" "stdout (fst (os_Remove e w p)) = stdout w"
  "q \<noteq> p \<Longrightarrow> map_of (files (fst (os_Remove e w p))) q = map_of (files w) q"
  "fault_remove e p = None \<Longrightarrow> map_of (files (fst (os_Remove e w p))) p = None"
  by (auto simp: os_Remove_def delete_conv' split: option.splits)

lemmas op_results =
  os_OpenFile_append_result os_Create_result run_pg_dump_result call_compressFile_result


subsection \<open>What the walk and the sweep change\<close>

lemma walk_preserves:
  fixes R :: "'s \<Rightarrow> 's \<Rightarrow> bool"
  assumes refl: "\<And>s. R s s"
      and trans: "\<And>a b c. R a b \<Longrightarrow> R b c \<Longrightarrow> R a c"
  shows "(\<And>s p i err. R s (fst (fn s p i err))) \<Longrightarrow> R s (fst (walk fn t s))"
    and "(\<And>s p i err. R s (fst (fn s p i err))) \<Longrightarrow> R s (fst (walk_names fn ts s))"
proof (induction fn t s and fn ts s rule: walk_walk_names.induct)
  case (1 fn p err rd cs s)
  show ?case by (simp add: "1.prems")
next
  case (2 fn p info rd cs s)
  note step = "2.prems"
  show ?case
  proof (cases "IsDir info")
    case False
    then show ?thesis by (simp add: step)
  next
    case True
    obtain s1 err1 where f: "fn s p (Some info) rd = (s1, err1)" by (cases "fn s p (Some info) rd")
    have r1: "R s s1" using step [of s p "Some info" rd] f by simp
    show ?thesis
    proof (cases "rd \<noteq> None \<or> err1 \<noteq> None")
      case True
      with \<open>IsDir info\<close> f r1 show ?thesis by simp
    next
      case False
      with "2.IH" [OF _ f [symmetric]] \<open>IsDir info\<close> step
      have "R s1 (fst (walk_names fn cs s1))" by simp
      with r1 False \<open>IsDir info\<close> f show ?thesis by (auto intro: trans)
    qed
  qed
next
  case (3 fn s)
  show ?case by (simp add: refl)
next
  case (4 fn q err rd cs rest s)
  note step = "4.prems"
  obtain s1 err1 where f: "fn s q None (Some err) = (s1, err1)" by (cases "fn s q None (Some err)")
  have r1: "R s s1" using step [of s q None "Some err"] f by simp
  show ?case
  proof (cases "err1 \<noteq> None \<and> err1 \<noteq> Some SkipDir")
    case True
    with f r1 show ?thesis by simp
  next
    case False
    with "4.IH" [OF f [symmetric]] step have "R s1 (fst (walk_names fn rest s1))" by simp
    with r1 False f show ?thesis by (auto intro: trans)
  qed
next
  case (5 fn q fi rd cs rest s)
  note step = "5.prems"
  obtain s1 err1 where f: "walk fn (Snap q (Inr fi) rd cs) s = (s1, err1)"
    by (cases "walk fn (Snap q (Inr fi) rd cs) s")
  have r1: "R s s1" using "5.IH"(1) step f by simp
  show ?case
  proof (cases "err1 \<noteq> None \<and> (\<not> IsDir fi \<or> err1 \<noteq> Some SkipDir)")
    case True
    with f r1 show ?thesis by simp
  next
    case False
    with "5.IH"(2) [OF f [symmetric]] step have "R s1 (fst (walk_names fn rest s1))" by simp
    with r1 False f show ?thesis by (auto intro: trans)
  qed
qed

lemma sweepFn_trace:
  "\<exists>evs. trace (fst (sweepFn e c w p i err)) = trace w @ evs
         \<and> (\<forall>ev\<in>set evs. \<exists>q rr. ev = CallRemove q rr \<and> filepath_Ext q = ''.gz'')"
  by (auto simp: sweepFn_def os_Remove_def split: option.splits prod.splits)


lemma walk_fst_snd: "walk fn t s = (fst (walk fn t s), snd (walk fn t s))"
  by simp

lemma cleanupOldBackups_trace:
  "\<exists>evs. trace (cleanupOldBackups e w dir r) = trace w @ evs
         \<and> (\<forall>ev\<in>set evs. \<exists>q rr. ev = CallRemove q rr \<and> filepath_Ext q = ''.gz'')"
proof -
  let ?R = "\<lambda>a b. \<exists>evs. trace b = trace a @ evs
         \<and> (\<forall>ev\<in>set evs. \<exists>q rr. ev = CallRemove q rr \<and> filepath_Ext q = ''.gz'')"
  have refl: "\<And>s. ?R s s" by simp
  have trans: "\<And>a b c. ?R a b \<Longrightarrow> ?R b c \<Longrightarrow> ?R a c" by fastforce
  have step: "\<And>s p i err. ?R s (fst (sweepFn e (cutoff_of e r) s p i err))"
    by (rule sweepFn_trace)
  have w: "\<And>t s. ?R s (fst (walk (sweepFn e (cutoff_of e r)) t s))"
    by (rule walk_preserves(1) [where R = ?R, OF refl trans step])
  have "\<And>fs s. ?R s (fst (filepath_Walk e fs dir (sweepFn e (cutoff_of e r)) s))"
    unfolding filepath_Walk_def using w step
    by (auto simp: split_beta split: sum.splits)
  from this [of _ "fmt_Println (log_Printf w (''INFO: Cleaning up backups older than '' @ show_int r @ '' days.'')) ''Cleaning up old backups...''"]
  show ?thesis
    by (simp add: cleanupOldBackups_def Let_def)
qed


lemma cleanup_trace_mem:
  "ev \<in> set (trace (cleanupOldBackups e w dir r)) \<Longrightarrow>
   ev \<in> set (trace w) \<or> (\<exists>q rr. ev = CallRemove q rr \<and> filepath_Ext q = ''.gz'')"
  using cleanupOldBackups_trace [of e w dir r] by fastforce

lemma cleanup_trace_keeps:
  "ev \<in> set (trace w) \<Longrightarrow> ev \<in> set (trace (cleanupOldBackups e w dir r))"
  using cleanupOldBackups_trace [of e w dir r] by fastforce

lemma os_Create_ok_lookup:
  "os_Create e w p = (w', None) \<Longrightarrow>
   map_of (files w') p =
     Some (case map_of (files w) p of
             None \<Rightarrow> new_file e
           | Some n \<Rightarrow> n\<lparr>content := [], modTime := write_time e\<rparr>)"
  by (auto simp: os_Create_def update_conv' split: option.splits if_splits)

subsection \<open>Evaluating a run on an example\<close>

lemmas path_eval = backupFile_of_def backup_layout_def filepath_Join_def filepath_Clean_def clean_step_def
  Format.simps(2) appendInt_def digits.simps clock_at_def

lemmas os_eval = os_IsNotExist_def os_Stat_def os_OpenFile_append_def os_Create_def os_Remove_def os_Open_def
  read_all_def write_all_def set_content_def new_file_def IsDir_def emit_def log_Printf_def fmt_Println_def
  run_pg_dump_def run_pg_restore_def call_compressFile_def call_decompressFile_def compressFile_def decompressFile_def
  gzip_emitted_def cmd_Env_def Let_def

lemmas sweep_eval = cleanupOldBackups_def filepath_Walk_def os_Lstat_def observe.simps readDirNames_def
  base_name_def cutoff_of_def sweepFn_def add_days_def Before_def ModTime_def show_int_def

lemmas example_defs = env_ok_def world_b_def world_dump_def world_artifact_def world_cut_artifact_def
  dir_node_def file_node_def
  store_stream_def store_header_def store_body_def filepath_Ext_def world_sweep_def aged_def

subsection \<open>Validation\<close>



subsection \<open>The slice that derives the temporary path\<close>

text \<open>
  Claim C10. In a restore with a database name and a \<^verbatim>\<open>-file\<close> argument of one or two
  characters, \<^verbatim>\<open>backupFile[:len(backupFile)-3]\<close> is out of bounds and has no result. The run
  reaches the slice as soon as the log file opens, and then it ends in a panic, not in an
  exit with status 1; only a log file that cannot be opened ends the run before the slice.
\<close>

theorem short_file_panics:
  assumes "dbName \<noteq> []" and "backupFile \<noteq> []" and "length backupFile < 3"
  shows "slice_to backupFile (int (length backupFile) - 3) = None
       \<and> (snd (os_OpenFile_append e w logFile) = None \<longrightarrow>
            snd (runRestore e w dbName dbUser dbHost backupFile logFile) = Panicked)
       \<and> (snd (os_OpenFile_append e w logFile) \<noteq> None \<longrightarrow>
            snd (runRestore e w dbName dbUser dbHost backupFile logFile) = Exited 1)"
  using assms by (auto simp: runRestore_def slice_to_def split: prod.splits option.splits)

theorem short_file_panics_witness:
  "''mydb'' \<noteq> [] \<and> ''gz'' \<noteq> [] \<and> length ''gz'' < 3
   \<and> slice_to ''gz'' (int (length ''gz'') - 3) = None
   \<and> snd (os_OpenFile_append env_ok world_b ''/log'') = None
   \<and> snd (runRestore env_ok world_b ''mydb'' ''postgres'' ''localhost'' ''gz'' ''/log'') = Panicked"
  using short_file_panics
          [of "''mydb''" "''gz''" env_ok world_b "''/log''" "''postgres''" "''localhost''"]
  by (simp add: os_OpenFile_append_def env_ok_def world_b_def)

subsection \<open>Failure of the dump\<close>

text \<open>
  Claim C3. In a backup run in which \<^verbatim>\<open>pg_dump\<close> fails (it cannot be started or exits with
  an error), the run calls \<^verbatim>\<open>os.Remove\<close> on the dump file and then exits with status 1:
  these are the only two calls of the run, so \<^verbatim>\<open>compressFile\<close> is never called. When the
  removal does not fail the dump file is gone, and no path other than the dump file and
  the log file has changed: the run leaves no compressed file.
\<close>

theorem dump_failure_removes_dump:
  assumes run: "runBackup e w dbName dbUser dbHost backupDir logFile retentionDays = (w', out)"
      and fresh: "trace w = []"
      and failed: "CallExec ''pg_dump'' args en (Some err) \<in> set (trace w')"
  shows "out = Exited 1
       \<and> (\<exists>rr. trace w' =
            [CallExec ''pg_dump'' [''-U'', dbUser, ''-h'', dbHost, ''-Fc'', dbName] (cmd_Env e) (Some err),
             CallRemove (backupFile_of e backupDir dbName) rr])
       \<and> (fault_remove e (backupFile_of e backupDir dbName) = None \<longrightarrow>
             map_of (files w') (backupFile_of e backupDir dbName) = None)
       \<and> (\<forall>q. q \<noteq> backupFile_of e backupDir dbName \<and> q \<noteq> logFile \<longrightarrow>
             map_of (files w') q = map_of (files w) q)"
  using run fresh failed
  by (auto simp: runBackup_def Let_def op_results split: if_splits prod.splits option.splits
           dest!: cleanup_trace_mem)

theorem dump_failure_removes_dump_witness:
  "trace world_b = []
   \<and> CallExec ''pg_dump'' [''-U'', ''postgres'', ''-h'', ''localhost'', ''-Fc'', ''mydb''] [] (Some (ExitError 1))
       \<in> set (trace (fst (runBackup env_dump_fails world_b ''mydb'' ''postgres'' ''localhost'' ''/b'' ''/log'' 7)))
   \<and> snd (runBackup env_dump_fails world_b ''mydb'' ''postgres'' ''localhost'' ''/b'' ''/log'' 7) = Exited 1
   \<and> map_of (files (fst (runBackup env_dump_fails world_b ''mydb'' ''postgres'' ''localhost'' ''/b'' ''/log'' 7)))
        ''/b/mydb_2025-08-09_114200.dump'' = None"
proof -
  let ?run = "runBackup env_dump_fails world_b ''mydb'' ''postgres'' ''localhost'' ''/b'' ''/log'' 7"
  have run: "?run = (fst ?run, snd ?run)" by simp
  have fresh: "trace world_b = []" by (simp add: world_b_def)
  have tr: "trace (fst ?run) =
      [CallExec ''pg_dump'' [''-U'', ''postgres'', ''-h'', ''localhost'', ''-Fc'', ''mydb''] [] (Some (ExitError 1)),
       CallRemove ''/b/mydb_2025-08-09_114200.dump'' None]"
    by (simp add: runBackup_def path_eval os_eval env_dump_fails_def env_ok_def world_b_def dir_node_def)
  have failed: "CallExec ''pg_dump'' [''-U'', ''postgres'', ''-h'', ''localhost'', ''-Fc'', ''mydb''] [] (Some (ExitError 1))
       \<in> set (trace (fst ?run))"
    by (simp add: tr)
  have bf: "backupFile_of env_dump_fails ''/b'' ''mydb'' = ''/b/mydb_2025-08-09_114200.dump''"
    by (simp add: path_eval env_dump_fails_def env_ok_def)
  have nofault: "fault_remove env_dump_fails ''/b/mydb_2025-08-09_114200.dump'' = None"
    by (simp add: env_dump_fails_def env_ok_def)
  from dump_failure_removes_dump [OF run fresh failed] fresh failed nofault
  show ?thesis by (simp add: bf)
qed

subsection \<open>Failure of the compression\<close>

text \<open>
  Claim C4. In a backup run in which the dump succeeds and \<^verbatim>\<open>compressFile\<close> returns an
  error, the run exits with status 1 and its only calls are the dump and the compression:
  \<^verbatim>\<open>os.Remove\<close> is not called, and the dump file is on disk with what \<^verbatim>\<open>pg_dump\<close> wrote.
  In any run, \<^verbatim>\<open>os.Remove\<close> is called on the dump file only after a failed dump or after
  a successful compression.
\<close>

theorem compression_failure_keeps_dump:
  assumes run: "runBackup e w dbName dbUser dbHost backupDir logFile retentionDays = (w', out)"
      and fresh: "trace w = []"
  shows "(CallCompress src dst (Some err) \<in> set (trace w') \<longrightarrow>
            out = Exited 1
          \<and> trace w' =
              [CallExec ''pg_dump'' [''-U'', dbUser, ''-h'', dbHost, ''-Fc'', dbName] (cmd_Env e) None,
               CallCompress (backupFile_of e backupDir dbName) (backupFile_of e backupDir dbName @ ''.gz'')
                 (Some err)]
          \<and> map_option content (map_of (files w') (backupFile_of e backupDir dbName))
              = Some (fst (pg_dump e [''-U'', dbUser, ''-h'', dbHost, ''-Fc'', dbName])))
       \<and> (CallRemove (backupFile_of e backupDir dbName) rr \<in> set (trace w') \<longrightarrow>
            (\<exists>x. CallExec ''pg_dump'' [''-U'', dbUser, ''-h'', dbHost, ''-Fc'', dbName] (cmd_Env e) (Some x)
                    \<in> set (trace w'))
            \<or> CallCompress (backupFile_of e backupDir dbName) (backupFile_of e backupDir dbName @ ''.gz'') None
                 \<in> set (trace w'))"
  using run fresh
  by (auto simp: runBackup_def Let_def op_results os_Create_ok_lookup split: if_splits prod.splits option.splits
           dest!: cleanup_trace_mem intro: cleanup_trace_keeps)

theorem compression_failure_keeps_dump_witness:
  "trace world_b = []
   \<and> CallCompress ''/b/mydb_2025-08-09_114200.dump'' ''/b/mydb_2025-08-09_114200.dump.gz'' (Some ErrNoSpace)
       \<in> set (trace (fst (runBackup env_disk_full world_b ''mydb'' ''postgres'' ''localhost'' ''/b'' ''/log'' 7)))
   \<and> snd (runBackup env_disk_full world_b ''mydb'' ''postgres'' ''localhost'' ''/b'' ''/log'' 7) = Exited 1
   \<and> map_option content
        (map_of (files (fst (runBackup env_disk_full world_b ''mydb'' ''postgres'' ''localhost'' ''/b'' ''/log'' 7)))
           ''/b/mydb_2025-08-09_114200.dump'') = Some [1, 2, 3]"
proof -
  let ?run = "runBackup env_disk_full world_b ''mydb'' ''postgres'' ''localhost'' ''/b'' ''/log'' 7"
  have run: "?run = (fst ?run, snd ?run)" by simp
  have fresh: "trace world_b = []" by (simp add: world_b_def)
  have tr: "trace (fst ?run) =
      [CallExec ''pg_dump'' [''-U'', ''postgres'', ''-h'', ''localhost'', ''-Fc'', ''mydb''] [] None,
       CallCompress ''/b/mydb_2025-08-09_114200.dump'' ''/b/mydb_2025-08-09_114200.dump.gz'' (Some ErrNoSpace)]"
    by (simp add: runBackup_def path_eval os_eval env_disk_full_def env_ok_def world_b_def dir_node_def
                  store_stream_def)
  have failed: "CallCompress ''/b/mydb_2025-08-09_114200.dump'' ''/b/mydb_2025-08-09_114200.dump.gz'' (Some ErrNoSpace)
       \<in> set (trace (fst ?run))"
    by (simp add: tr)
  have bf: "backupFile_of env_disk_full ''/b'' ''mydb'' = ''/b/mydb_2025-08-09_114200.dump''"
    by (simp add: path_eval env_disk_full_def env_ok_def)
  have dump: "fst (pg_dump env_disk_full [''-U'', ''postgres'', ''-h'', ''localhost'', ''-Fc'', ''mydb'']) = [1, 2, 3]"
    by (simp add: env_disk_full_def env_ok_def)
  from compression_failure_keeps_dump
         [OF run fresh, of "''/b/mydb_2025-08-09_114200.dump''" "''/b/mydb_2025-08-09_114200.dump.gz''" ErrNoSpace]
       fresh failed
  show ?thesis by (simp add: bf dump)
qed

subsection \<open>Compression and decompression\<close>

lemma compressFile_ok:
  assumes "no_faults e src" "no_faults e dst" "src \<noteq> dst"
      and "map_of (files w) src = Some n" "\<not> IsDir n" "not_a_directory w dst"
  shows "snd (compressFile e w src dst) = None"
    and "map_option content (map_of (files (fst (compressFile e w src dst))) dst) = Some (gzip_stream e (content n))"
    and "map_option IsDir (map_of (files (fst (compressFile e w src dst))) dst) = Some False"
    and "q \<noteq> dst \<Longrightarrow> map_of (files (fst (compressFile e w src dst))) q = map_of (files w) q"
  using assms
  by (auto simp: compressFile_def no_faults_def not_a_directory_def os_Open_def os_Create_def read_all_def
                 write_all_def set_content_def update_conv' new_file_def IsDir_def
           split: option.splits)

lemma decompressFile_ok:
  assumes "no_faults e src" "no_faults e dst" "src \<noteq> dst"
      and "map_of (files w) src = Some n" "\<not> IsDir n" "not_a_directory w dst"
      and "gunzip_header e (content n) = None" "gunzip_body e (content n) = (bs, None)"
  shows "snd (decompressFile e w src dst) = None"
    and "map_option content (map_of (files (fst (decompressFile e w src dst))) dst) = Some bs"
  using assms
  by (auto simp: decompressFile_def no_faults_def not_a_directory_def os_Open_def os_Create_def read_all_def
                 write_all_def set_content_def update_conv' new_file_def IsDir_def
           split: option.splits)

text \<open>
  Claim C6. For every byte sequence \<open>b\<close>: when a file holds \<open>b\<close>, \<^verbatim>\<open>compressFile\<close> to a second
  path and \<^verbatim>\<open>decompressFile\<close> from there to a third (or back to the first) both return no
  error, and the last file holds exactly \<open>b\<close>. The gzip codec is the standard library's and
  is a parameter here; what is asked of it is that it reads back the stream it wrote for
  \<open>b\<close>. The operating system is taken not to fail on the three paths.
\<close>

theorem compress_decompress_roundtrip:
  assumes codec: "gunzip_header e (gzip_stream e b) = None" "gunzip_body e (gzip_stream e b) = (b, None)"
      and faults: "no_faults e src" "no_faults e mid" "no_faults e dst"
      and paths: "src \<noteq> mid" "mid \<noteq> dst"
      and src: "map_of (files w) src = Some n" "\<not> IsDir n" "content n = b"
      and others: "not_a_directory w mid" "not_a_directory w dst"
  shows "snd (compressFile e w src mid) = None
       \<and> snd (decompressFile e (fst (compressFile e w src mid)) mid dst) = None
       \<and> map_option content
           (map_of (files (fst (decompressFile e (fst (compressFile e w src mid)) mid dst))) dst) = Some b"
proof -
  let ?w1 = "fst (compressFile e w src mid)"
  have c: "snd (compressFile e w src mid) = None"
    and m: "map_option content (map_of (files ?w1) mid) = Some (gzip_stream e b)"
    and md: "map_option IsDir (map_of (files ?w1) mid) = Some False"
    and fr: "\<And>q. q \<noteq> mid \<Longrightarrow> map_of (files ?w1) q = map_of (files w) q"
    using compressFile_ok [OF faults(1,2) paths(1) src(1,2) others(1)] src(3) by simp_all
  from m md obtain k where k: "map_of (files ?w1) mid = Some k" "content k = gzip_stream e b" "\<not> IsDir k"
    by (cases "map_of (files ?w1) mid") auto
  have nd: "not_a_directory ?w1 dst"
    using others(2) fr [of dst] paths(2) by (simp add: not_a_directory_def)
  have "snd (decompressFile e ?w1 mid dst) = None"
    and "map_option content (map_of (files (fst (decompressFile e ?w1 mid dst))) dst) = Some b"
    using decompressFile_ok [OF faults(2,3) paths(2) k(1,3) nd, of b] codec k(2) by simp_all
  with c show ?thesis by simp
qed


theorem compress_decompress_roundtrip_witness:
  "gunzip_header env_ok (gzip_stream env_ok [7, 8, 9]) = None
   \<and> gunzip_body env_ok (gzip_stream env_ok [7, 8, 9]) = ([7, 8, 9], None)
   \<and> no_faults env_ok ''/b/x.dump'' \<and> no_faults env_ok ''/b/x.dump.gz'' \<and> no_faults env_ok ''/b/y.dump''
   \<and> ''/b/x.dump'' \<noteq> ''/b/x.dump.gz'' \<and> ''/b/x.dump.gz'' \<noteq> ''/b/y.dump''
   \<and> map_of (files world_dump) ''/b/x.dump'' = Some (file_node [7, 8, 9])
   \<and> \<not> IsDir (file_node [7, 8, 9]) \<and> content (file_node [7, 8, 9]) = [7, 8, 9]
   \<and> not_a_directory world_dump ''/b/x.dump.gz'' \<and> not_a_directory world_dump ''/b/y.dump''
   \<and> snd (compressFile env_ok world_dump ''/b/x.dump'' ''/b/x.dump.gz'') = None
   \<and> snd (decompressFile env_ok (fst (compressFile env_ok world_dump ''/b/x.dump'' ''/b/x.dump.gz''))
             ''/b/x.dump.gz'' ''/b/y.dump'') = None
   \<and> map_option content
        (map_of (files (fst (decompressFile env_ok
                               (fst (compressFile env_ok world_dump ''/b/x.dump'' ''/b/x.dump.gz''))
                               ''/b/x.dump.gz'' ''/b/y.dump'')))
           ''/b/y.dump'') = Some [7, 8, 9]"
proof -
  have codec: "gunzip_header env_ok (gzip_stream env_ok [7, 8, 9]) = None"
              "gunzip_body env_ok (gzip_stream env_ok [7, 8, 9]) = ([7, 8, 9], None)"
    by (simp_all add: env_ok_def store_stream_def store_header_def store_body_def)
  have faults: "no_faults env_ok ''/b/x.dump''" "no_faults env_ok ''/b/x.dump.gz''"
               "no_faults env_ok ''/b/y.dump''"
    by (simp_all add: no_faults_def env_ok_def)
  have paths: "''/b/x.dump'' \<noteq> ''/b/x.dump.gz''" "''/b/x.dump.gz'' \<noteq> ''/b/y.dump''"
    by simp_all
  have src: "map_of (files world_dump) ''/b/x.dump'' = Some (file_node [7, 8, 9])"
            "\<not> IsDir (file_node [7, 8, 9])" "content (file_node [7, 8, 9]) = [7, 8, 9]"
    by (simp_all add: world_dump_def file_node_def IsDir_def)
  have others: "not_a_directory world_dump ''/b/x.dump.gz''" "not_a_directory world_dump ''/b/y.dump''"
    by (simp_all add: not_a_directory_def world_dump_def)
  from compress_decompress_roundtrip [OF codec faults paths src others] codec faults paths src others
  show ?thesis by simp
qed

text \<open>
  Claim C9. \<^verbatim>\<open>compressFile\<close> returns the error of opening the source, of creating the
  destination and of the copy. The error of closing the compressor is not returned:
  \<^verbatim>\<open>gw.Close()\<close> is deferred and its result is dropped. Here the destination takes five
  bytes: the copy writes five, the last byte of the stream is due at the close and is
  lost, and \<^verbatim>\<open>compressFile\<close> returns no error over a file that holds a cut stream.
\<close>

theorem compressFile_drops_close_error:
  "fault_write env_trailer_lost ''/b/x.dump.gz'' = Some (5, ErrNoSpace)
   \<and> gzip_stream env_trailer_lost [7, 8, 9] = [31, 139, 7, 8, 9, 0]
   \<and> snd (compressFile env_trailer_lost world_dump ''/b/x.dump'' ''/b/x.dump.gz'') = None
   \<and> map_option content
        (map_of (files (fst (compressFile env_trailer_lost world_dump ''/b/x.dump'' ''/b/x.dump.gz'')))
           ''/b/x.dump.gz'') = Some [31, 139, 7, 8, 9]"
  by (simp add: os_eval env_trailer_lost_def example_defs)

text \<open>
  What follows from it in a backup: the run ends with status 0, the dump is removed, and
  the file that is kept cannot be read back.
\<close>

lemma backup_keeps_cut_artifact:
  "snd (runBackup env_trailer_lost world_b ''mydb'' ''postgres'' ''localhost'' ''/b'' ''/log'' 7) = Returned
   \<and> map_of (files (fst (runBackup env_trailer_lost world_b ''mydb'' ''postgres'' ''localhost'' ''/b'' ''/log'' 7)))
        ''/b/mydb_2025-08-09_114200.dump'' = None
   \<and> map_option content
        (map_of (files (fst (runBackup env_trailer_lost world_b ''mydb'' ''postgres'' ''localhost'' ''/b'' ''/log'' 7)))
           ''/b/mydb_2025-08-09_114200.dump.gz'') = Some [31, 139, 1, 2, 3]
   \<and> snd (gunzip_body env_trailer_lost [31, 139, 1, 2, 3]) = Some ErrUnexpectedEOF"
  by (simp add: runBackup_def path_eval os_eval env_trailer_lost_def example_defs sweep_eval)

subsection \<open>The temporary file of a restore\<close>

text \<open>
  Claim C1. After a restore run the temporary file, the input path without its last three
  characters, is to be gone. The code removes it in a deferred call, which runs when
  \<^verbatim>\<open>runRestore\<close> returns; after a failed \<^verbatim>\<open>pg_restore\<close> the run ends in \<^verbatim>\<open>os.Exit(1)\<close> and the
  deferred call does not run. Here \<^verbatim>\<open>pg_restore\<close> exits with an error: the run makes no call
  of \<^verbatim>\<open>os.Remove\<close>, and the temporary file is on disk with the decompressed dump.
\<close>

theorem restore_failure_leaves_temp_file:
  "snd (runRestore env_restore_fails world_artifact ''mydb'' ''postgres'' ''localhost''
          ''/b/mydb.dump.gz'' ''/log'') = Exited 1
   \<and> trace (fst (runRestore env_restore_fails world_artifact ''mydb'' ''postgres'' ''localhost''
                    ''/b/mydb.dump.gz'' ''/log'')) =
       [CallDecompress ''/b/mydb.dump.gz'' ''/b/mydb.dump'' None,
        CallExec ''pg_restore''
          [''-U'', ''postgres'', ''-h'', ''localhost'', ''-d'', ''mydb'', ''--clean'', ''/b/mydb.dump''] []
          (Some (ExitError 1))]
   \<and> map_option content
        (map_of (files (fst (runRestore env_restore_fails world_artifact ''mydb'' ''postgres'' ''localhost''
                               ''/b/mydb.dump.gz'' ''/log'')))
           ''/b/mydb.dump'') = Some [7, 8, 9]"
  by (simp add: runRestore_def slice_to_def os_eval env_restore_fails_def example_defs)

text \<open>
  The same holds when the compressed file is cut short: \<^verbatim>\<open>decompressFile\<close> has created
  the temporary file when the stream ends early, and the run exits before the removal is
  deferred.
\<close>

lemma restore_of_cut_artifact_leaves_temp_file:
  "snd (runRestore env_ok world_cut_artifact ''mydb'' ''postgres'' ''localhost'' ''/b/mydb.dump.gz'' ''/log'')
     = Exited 1
   \<and> trace (fst (runRestore env_ok world_cut_artifact ''mydb'' ''postgres'' ''localhost''
                    ''/b/mydb.dump.gz'' ''/log'')) =
       [CallDecompress ''/b/mydb.dump.gz'' ''/b/mydb.dump'' (Some ErrUnexpectedEOF)]
   \<and> map_option content
        (map_of (files (fst (runRestore env_ok world_cut_artifact ''mydb'' ''postgres'' ''localhost''
                               ''/b/mydb.dump.gz'' ''/log'')))
           ''/b/mydb.dump'') = Some [7, 8]"
  by (simp add: runRestore_def slice_to_def os_eval example_defs)

text \<open>A run that returns does remove the temporary file, the removal not failing.\<close>

lemma restore_return_removes_temp_file:
  assumes run: "runRestore e w dbName dbUser dbHost backupFile logFile = (w', Returned)"
      and rm: "fault_remove e (take (length backupFile - 3) backupFile) = None"
  shows "map_of (files w') (take (length backupFile - 3) backupFile) = None"
  using run rm
  by (auto simp: runRestore_def Let_def slice_to_def nat_diff_distrib
           split: if_splits prod.splits option.splits)

subsection \<open>The retention sweep\<close>

text \<open>
  A callback that passes the error on drives the walk exactly as the recording callback
  does, so its effect is that of running it over the recorded visits.
\<close>

lemma walk_record_simps:
  "walk record_visit (Snap p (Inl err) rd cs) s = (s @ [(p, None, Some err)], Some err)"
  "walk record_visit (Snap p (Inr info) rd cs) s =
     (if \<not> IsDir info then (s @ [(p, Some info, None)], None)
      else if rd \<noteq> None then (s @ [(p, Some info, rd)], rd)
      else walk_names record_visit cs (s @ [(p, Some info, rd)]))"
  "walk_names record_visit [] s = (s, None)"
  "walk_names record_visit (Snap q (Inl err) rd cs # rest) s =
     (if err \<noteq> SkipDir then (s @ [(q, None, Some err)], Some err)
      else walk_names record_visit rest (s @ [(q, None, Some err)]))"
  by (simp_all add: record_visit_def)

lemma record_names_acc:
  assumes el: "\<And>t acc. t \<in> set ts \<Longrightarrow>
                 walk record_visit t acc = (acc @ fst (walk record_visit t []), snd (walk record_visit t []))"
  shows "walk_names record_visit ts acc =
           (acc @ fst (walk_names record_visit ts []), snd (walk_names record_visit ts []))"
  using el
proof (induction ts arbitrary: acc)
  case Nil
  show ?case by simp
next
  case (Cons c rest)
  obtain q st rd cs where c: "c = Snap q st rd cs" by (cases c)
  obtain R ER where r0: "walk_names record_visit rest [] = (R, ER)"
    by (cases "walk_names record_visit rest []")
  have "\<And>a. walk_names record_visit rest a =
           (a @ fst (walk_names record_visit rest []), snd (walk_names record_visit rest []))"
  proof (rule Cons.IH)
    fix t acc
    assume "t \<in> set rest"
    then have "t \<in> set (c # rest)" by simp
    then show "walk record_visit t acc = (acc @ fst (walk record_visit t []), snd (walk record_visit t []))"
      by (rule Cons.prems)
  qed
  then have rest: "\<And>a. walk_names record_visit rest a = (a @ R, ER)"
    by (simp add: r0)
  show ?case
  proof (cases st)
    case (Inl err)
    show ?thesis
      by (simp add: c Inl walk_record_simps rest del: walk.simps walk_names.simps)
  next
    case (Inr fi)
    obtain A E where h0: "walk record_visit (Snap q (Inr fi) rd cs) [] = (A, E)"
      by (cases "walk record_visit (Snap q (Inr fi) rd cs) []")
    have "\<And>a. walk record_visit c a = (a @ fst (walk record_visit c []), snd (walk record_visit c []))"
      by (rule Cons.prems) simp
    then have hd: "\<And>a. walk record_visit (Snap q (Inr fi) rd cs) a = (a @ A, E)"
      by (simp add: c Inr h0 del: walk.simps walk_names.simps)
    show ?thesis
      by (simp add: c Inr hd rest del: walk.simps walk_names.simps(2))
  qed
qed

lemma record_acc:
  "walk record_visit t acc = (acc @ fst (walk record_visit t []), snd (walk record_visit t []))"
proof (induction t arbitrary: acc)
  case (Snap p st rd cs)
  obtain R ER where r0: "walk_names record_visit cs [] = (R, ER)"
    by (cases "walk_names record_visit cs []")
  have "\<And>a. walk_names record_visit cs a =
           (a @ fst (walk_names record_visit cs []), snd (walk_names record_visit cs []))"
    by (rule record_names_acc) (rule Snap.IH)
  then have names: "\<And>a. walk_names record_visit cs a = (a @ R, ER)"
    by (simp add: r0)
  show ?case
  proof (cases st)
    case (Inl err)
    show ?thesis by (simp add: Inl walk_record_simps del: walk.simps walk_names.simps)
  next
    case (Inr info)
    show ?thesis
      by (simp add: Inr walk_record_simps names del: walk.simps walk_names.simps)
  qed
qed

lemma record_names_acc_all:
  "walk_names record_visit ts acc =
     (acc @ fst (walk_names record_visit ts []), snd (walk_names record_visit ts []))"
  by (rule record_names_acc) (rule record_acc)

lemma record_visit_fst_snd:
  "fst (record_visit s p i e) = s @ [(p, i, e)]" "snd (record_visit s p i e) = e"
  by (simp_all add: record_visit_def)

lemma replay_simps [simp]:
  "replay fn s [] = s"
  "replay fn s ((p, i, err) # vs) = replay fn (fst (fn s p i err)) vs"
  "replay fn s (us @ vs) = replay fn (replay fn s us) vs"
  by (simp_all add: replay_def)

lemma walk_names_replay:
  assumes pass: "\<And>s p i err. snd (fn s p i err) = err"
      and el: "\<And>t s. t \<in> set ts \<Longrightarrow>
                 walk fn t s = (replay fn s (fst (walk record_visit t [])), snd (walk record_visit t []))"
  shows "walk_names fn ts s =
           (replay fn s (fst (walk_names record_visit ts [])), snd (walk_names record_visit ts []))"
  using el
proof (induction ts arbitrary: s)
  case Nil
  show ?case by simp
next
  case (Cons c rest)
  obtain q st rd cs where c: "c = Snap q st rd cs" by (cases c)
  obtain R ER where r0: "walk_names record_visit rest [] = (R, ER)"
    by (cases "walk_names record_visit rest []")
  have racc: "\<And>a. walk_names record_visit rest a = (a @ R, ER)"
    using record_names_acc_all [of rest] by (simp add: r0)
  have "\<And>a. walk_names fn rest a =
           (replay fn a (fst (walk_names record_visit rest [])), snd (walk_names record_visit rest []))"
  proof (rule Cons.IH)
    fix t a
    assume "t \<in> set rest"
    then have "t \<in> set (c # rest)" by simp
    then show "walk fn t a = (replay fn a (fst (walk record_visit t [])), snd (walk record_visit t []))"
      by (rule Cons.prems)
  qed
  then have rest: "\<And>a. walk_names fn rest a = (replay fn a R, ER)"
    by (simp add: r0)
  show ?case
  proof (cases st)
    case (Inl err)
    show ?thesis
      by (simp add: c Inl split_beta pass record_visit_fst_snd racc rest)
  next
    case (Inr fi)
    obtain A E where h0: "walk record_visit (Snap q (Inr fi) rd cs) [] = (A, E)"
      by (cases "walk record_visit (Snap q (Inr fi) rd cs) []")
    have "walk fn c s = (replay fn s (fst (walk record_visit c [])), snd (walk record_visit c []))"
      by (rule Cons.prems) simp
    then have hd: "walk fn (Snap q (Inr fi) rd cs) s = (replay fn s A, E)"
      by (simp add: c Inr h0 del: walk.simps)
    show ?thesis
      by (simp add: c Inr hd h0 rest racc del: walk.simps walk_names.simps(2))
  qed
qed

lemma walk_replay:
  assumes pass: "\<And>s p i err. snd (fn s p i err) = err"
  shows "walk fn t s = (replay fn s (fst (walk record_visit t [])), snd (walk record_visit t []))"
proof (induction t arbitrary: s)
  case (Snap p st rd cs)
  obtain R ER where r0: "walk_names record_visit cs [] = (R, ER)"
    by (cases "walk_names record_visit cs []")
  have racc: "\<And>a. walk_names record_visit cs a = (a @ R, ER)"
    using record_names_acc_all [of cs] by (simp add: r0)
  have "\<And>a. walk_names fn cs a =
           (replay fn a (fst (walk_names record_visit cs [])), snd (walk_names record_visit cs []))"
    by (rule walk_names_replay [OF pass]) (rule Snap.IH)
  then have names: "\<And>a. walk_names fn cs a = (replay fn a R, ER)"
    by (simp add: r0)
  show ?case
  proof (cases st)
    case (Inl err)
    show ?thesis
      by (simp add: Inl split_beta pass record_visit_fst_snd prod_eq_iff)
  next
    case (Inr info)
    show ?thesis
      by (simp add: Inr split_beta pass record_visit_fst_snd racc names prod_eq_iff)
  qed
qed


lemma removed_paths_append [simp]:
  "removed_paths (xs @ ys) = removed_paths xs @ removed_paths ys"
  by (induction xs rule: removed_paths.induct) simp_all

lemma sweepFn_passes_error: "snd (sweepFn e c w p i err) = err"
  by (simp add: sweepFn_def split: option.splits prod.splits)

lemma sweepFn_removed:
  "removed_paths (trace (fst (sweepFn e c w p i err))) =
     removed_paths (trace w) @ (if expired c (p, i, err) then [p] else [])"
  by (cases i; cases err) (auto simp: sweepFn_def os_Remove_def emit_def log_Printf_def split: option.splits)

lemma replay_sweep_removed:
  "removed_paths (trace (replay (sweepFn e c) w vs)) =
     removed_paths (trace w) @ map fst (filter (expired c) vs)"
proof (induction vs arbitrary: w)
  case Nil
  show ?case by simp
next
  case (Cons v vs)
  obtain p i err where v: "v = (p, i, err)" by (cases v)
  show ?case
    by (simp add: v Cons.IH sweepFn_removed del: expired.simps)
qed

lemma filepath_Walk_root_snap:
  "fst (filepath_Walk e fs root fn s) = fst (walk fn (root_snap e fs root) s)"
  by (simp add: filepath_Walk_def root_snap_def split_beta split: sum.splits)

text \<open>
  Claim C5, as the code has it. The paths on which the sweep calls \<^verbatim>\<open>os.Remove\<close> are, in
  order, exactly the visited entries that are not directories, have the extension
  \<^verbatim>\<open>.gz\<close> and were last modified strictly before \<^verbatim>\<open>now.AddDate(0, 0, -retentionDays)\<close>. An
  entry without that extension and a directory are never removed, whatever their age.
  The test of the code is \<^verbatim>\<open>!info.IsDir()\<close>: a symbolic link or another entry that is
  neither a directory nor a regular file is removed as well.
\<close>

theorem sweep_removes_expired_entries:
  "removed_paths (trace (cleanupOldBackups e w backupDir retentionDays)) =
     removed_paths (trace w)
     @ map fst (filter (expired (cutoff_of e retentionDays)) (sweep_visits e (files w) backupDir))"
  by (simp add: cleanupOldBackups_def Let_def filepath_Walk_root_snap log_Printf_def fmt_Println_def
                walk_replay [OF sweepFn_passes_error] replay_sweep_removed sweep_visits_def visits_def)

text \<open>The example directory, swept with a retention of seven days.\<close>

lemma sweep_visits_example:
  "sweep_visits env_ok (files world_sweep) ''/b'' =
     [(''/b'', Some dir_node, None),
      (''/b/link.gz'', Some (aged ModeSymlink 30), None),
      (''/b/new.dump.gz'', Some (aged ModeRegular 1), None),
      (''/b/old.dump'', Some (aged ModeRegular 30), None),
      (''/b/old.dump.gz'', Some (aged ModeRegular 8), None),
      (''/b/sub.gz'', Some (aged ModeDir 30), None)]"
  by (simp add: sweep_visits_def visits_def root_snap_def record_visit_def path_eval os_eval sweep_eval
                example_defs world_sweep_def aged_def)

lemma sweep_removed_example:
  "removed_paths (trace (cleanupOldBackups env_ok world_sweep ''/b'' 7)) = [''/b/link.gz'', ''/b/old.dump.gz'']"
  by (simp add: path_eval os_eval sweep_eval example_defs world_sweep_def aged_def)

text \<open>
  Claim C5, as it is stated, asks for a regular file. In the example directory the sweep
  with a retention of seven days removes the compressed file that is eight days old,
  keeps the one that is a day old, the old dump and the directory, and removes the
  symbolic link \<^verbatim>\<open>link.gz\<close>, which is not a regular file.
\<close>

theorem sweep_removes_symlink:
  "(''/b/link.gz'', Some (aged ModeSymlink 30), None) \<in> set (sweep_visits env_ok (files world_sweep) ''/b'')
   \<and> \<not> IsRegular (aged ModeSymlink 30)
   \<and> ''/b/link.gz'' \<in> set (removed_paths (trace (cleanupOldBackups env_ok world_sweep ''/b'' 7)))
   \<and> removed_paths (trace (cleanupOldBackups env_ok world_sweep ''/b'' 7))
       \<noteq> removed_paths (trace world_sweep)
          @ map fst (filter (expired_regular (cutoff_of env_ok 7))
                       (sweep_visits env_ok (files world_sweep) ''/b''))"
  by (simp add: sweep_visits_example sweep_removed_example)
     (simp add: aged_def IsRegular_def world_sweep_def)

subsection \<open>The name of the backup\<close>

text \<open>The layout of the program gives the timestamp of the specification.\<close>

lemma digits_small: "n < 10 \<Longrightarrow> digits n = [digit n]"
  by (subst digits.simps) (simp add: digit_def)

lemma digits_step: "10 \<le> n \<Longrightarrow> digits n = digits (n div 10) @ [digit (n mod 10)]"
  by (subst digits.simps) (simp add: digit_def)

lemma digit_zero: "digit 0 = CHR ''0''"
  by (simp add: digit_def)

lemma replicate_zeros:
  "replicate (Suc 0) c = [c]" "replicate 2 c = [c, c]" "replicate 3 c = [c, c, c]"
  by (simp_all add: numeral_2_eq_2 numeral_3_eq_3)

lemma appendInt_two: "n < 100 \<Longrightarrow> appendInt (int n) 2 = two_digits n"
proof (cases "n < 10")
  case True
  then show ?thesis by (simp add: appendInt_def digits_small two_digits_def digit_zero)
next
  case False
  assume "n < 100"
  with False have "n div 10 < 10" "10 \<le> n" by auto
  then show ?thesis
    by (simp add: appendInt_def digits_step digits_small two_digits_def)
qed

lemma appendInt_four: "0 \<le> y \<Longrightarrow> y \<le> 9999 \<Longrightarrow> appendInt y 4 = four_digits (nat y)"
proof -
  assume y: "0 \<le> y" "y \<le> 9999"
  define n where "n = nat y"
  have n: "n < 10000" "y = int n" using y by (auto simp: n_def)
  consider "n < 10" | "10 \<le> n" "n < 100" | "100 \<le> n" "n < 1000" | "1000 \<le> n" by linarith
  then have "replicate (4 - length (digits n)) (CHR ''0'') @ digits n = four_digits n"
  proof cases
    case 1
    then show ?thesis by (simp add: digits_small four_digits_def digit_zero replicate_zeros)
  next
    case 2
    then have "n div 10 < 10" by auto
    with 2 show ?thesis
      by (simp add: digits_step digits_small four_digits_def digit_zero replicate_zeros)
  next
    case 3
    then have a: "10 \<le> n" "10 \<le> n div 10" "n div 10 div 10 < 10" by auto
    have b: "n div 10 div 10 = n div 100" by (simp add: div_mult2_eq)
    from 3 have c: "n div 1000 = 0" "n div 100 < 10" by auto
    show ?thesis
      using a c by (simp add: digits_step digits_small four_digits_def digit_zero b replicate_zeros)
  next
    case 4
    then have a: "10 \<le> n" "10 \<le> n div 10" "10 \<le> n div 10 div 10" "n div 10 div 10 div 10 < 10"
      using n(1) by auto
    have b: "n div 10 div 10 = n div 100" "n div 100 div 10 = n div 1000" by (simp_all add: div_mult2_eq)
    from n(1) have c: "n div 1000 < 10" by auto
    show ?thesis
      using a c by (simp add: digits_step digits_small four_digits_def b)
  qed
  then show ?thesis by (simp add: appendInt_def n(2))
qed

lemma Format_backup_layout:
  "valid_time t \<Longrightarrow> Format t backup_layout = spec_timestamp t"
  by (simp add: backup_layout_def Format.simps(2) valid_time_def spec_timestamp_def appendInt_two appendInt_four)

text \<open>Joining a clean directory and a plain name puts one separator between them.\<close>

lemma elements_sep:
  "elements cur (xs @ CHR ''/'' # ys) = elements cur xs @ elements [] ys"
  by (induction xs arbitrary: cur) simp_all

lemma elements_plain: "CHR ''/'' \<notin> set n \<Longrightarrow> elements cur n = [cur @ n]"
  by (induction n arbitrary: cur) auto

lemma join_sep_snoc: "out \<noteq> [] \<Longrightarrow> join_sep (out @ [n]) = join_sep out @ ''/'' @ n"
  by (induction out rule: join_sep.induct) simp_all

lemma join_sep_empty: "join_sep out = [] \<Longrightarrow> out = [] \<or> hd out = []"
  by (induction out rule: join_sep.induct) simp_all

lemma Clean_append_name:
  assumes d: "clean_dir d" and n: "CHR ''/'' \<notin> set n" "n \<noteq> []" "n \<noteq> ''.''" "n \<noteq> ''..''"
  shows "filepath_Clean (d @ ''/'' @ n) = d @ ''/'' @ n"
proof -
  let ?r = "hd d = CHR ''/''"
  let ?out = "foldl (clean_step ?r) [] (elements [] d)"
  from d have ne: "d \<noteq> []" and cl: "filepath_Clean d = d" and nd: "d \<noteq> ''.''" and nr: "d \<noteq> ''/''"
    by (simp_all add: clean_dir_def)
  have els: "elements [] (d @ CHR ''/'' # n) = elements [] d @ [n]"
    using elements_sep [of "[]" d n] n(1) by (simp add: elements_plain)
  have step: "\<And>r. foldl (clean_step r) [] (elements [] d @ [n]) = foldl (clean_step r) [] (elements [] d) @ [n]"
    using n by (simp add: clean_step_def)
  show ?thesis
  proof (cases ?r)
    case True
    from cl ne True have shape: "''/'' @ join_sep (foldl (clean_step True) [] (elements [] d)) = d"
      by (simp add: filepath_Clean_def Let_def)
    with nr have out: "foldl (clean_step True) [] (elements [] d) \<noteq> []" by auto
    have "filepath_Clean (d @ ''/'' @ n) = ''/'' @ join_sep (foldl (clean_step True) [] (elements [] d) @ [n])"
      using ne True by (simp add: filepath_Clean_def Let_def els step del: foldl_append)
    also have "\<dots> = (''/'' @ join_sep (foldl (clean_step True) [] (elements [] d))) @ ''/'' @ n"
      by (simp add: join_sep_snoc [OF out])
    finally show ?thesis by (simp only: shape)
  next
    case False
    from cl ne False have shape:
      "(if foldl (clean_step False) [] (elements [] d) = [] then ''.''
        else join_sep (foldl (clean_step False) [] (elements [] d))) = d"
      by (simp add: filepath_Clean_def Let_def)
    with nd have out: "foldl (clean_step False) [] (elements [] d) \<noteq> []" by auto
    with shape have shape': "join_sep (foldl (clean_step False) [] (elements [] d)) = d" by simp
    have "filepath_Clean (d @ ''/'' @ n) = join_sep (foldl (clean_step False) [] (elements [] d) @ [n])"
      using ne False by (simp add: filepath_Clean_def Let_def els step del: foldl_append)
    also have "\<dots> = join_sep (foldl (clean_step False) [] (elements [] d)) @ ''/'' @ n"
      by (simp add: join_sep_snoc [OF out])
    finally show ?thesis by (simp only: shape')
  qed
qed

lemma digit_not_sep: "k < 10 \<Longrightarrow> CHR ''/'' \<noteq> digit k"
proof -
  assume "k < 10"
  then have "digit k \<in> set ''0123456789''"
    unfolding digit_def by (intro nth_mem) simp
  then show ?thesis by auto
qed

lemma spec_timestamp_no_sep: "CHR ''/'' \<notin> set (spec_timestamp t)"
  by (simp add: spec_timestamp_def two_digits_def four_digits_def digit_not_sep)

lemma backup_name_shape:
  "CHR ''/'' \<notin> set db \<Longrightarrow> CHR ''/'' \<notin> set (db @ ''_'' @ spec_timestamp t @ ''.dump'')"
  "db @ ''_'' @ spec_timestamp t @ ''.dump'' \<noteq> []"
  "db @ ''_'' @ spec_timestamp t @ ''.dump'' \<noteq> ''.''"
  "db @ ''_'' @ spec_timestamp t @ ''.dump'' \<noteq> ''..''"
proof -
  show "CHR ''/'' \<notin> set db \<Longrightarrow> CHR ''/'' \<notin> set (db @ ''_'' @ spec_timestamp t @ ''.dump'')"
    using spec_timestamp_no_sep [of t] by simp
  have "6 \<le> length (db @ ''_'' @ spec_timestamp t @ ''.dump'')" by simp
  then show "db @ ''_'' @ spec_timestamp t @ ''.dump'' \<noteq> []"
    "db @ ''_'' @ spec_timestamp t @ ''.dump'' \<noteq> ''.''"
    "db @ ''_'' @ spec_timestamp t @ ''.dump'' \<noteq> ''..''"
    by (auto simp del: append_eq_Cons_conv append_is_Nil_conv dest!: arg_cong [where f = length])
qed

text \<open>
  Claim C7. For a valid time, the path of the dump is \<^verbatim>\<open>backupDir\<close> joined (by
  \<^verbatim>\<open>filepath.Join\<close>) with \<^verbatim>\<open>db_YYYY-MM-DD_HHMMSS.dump\<close>; for a clean directory and a database
  name without a separator that is \<^verbatim>\<open>backupDir/db_YYYY-MM-DD_HHMMSS.dump\<close> letter for letter.
  The run compresses that file into the path with \<^verbatim>\<open>.gz\<close> appended: these are the two
  paths of every call of \<^verbatim>\<open>compressFile\<close> that a run makes.
\<close>

theorem backup_path_naming:
  assumes "valid_time (now_start e)"
  shows "backupFile_of e backupDir dbName =
           filepath_Join [backupDir, dbName @ ''_'' @ spec_timestamp (now_start e) @ ''.dump'']
       \<and> (clean_dir backupDir \<and> plain_name dbName \<longrightarrow>
            backupFile_of e backupDir dbName = spec_backup_path backupDir dbName (now_start e))
       \<and> (runBackup e w dbName dbUser dbHost backupDir logFile retentionDays = (w', out)
            \<and> trace w = [] \<and> CallCompress src dst r \<in> set (trace w') \<longrightarrow>
            src = backupFile_of e backupDir dbName \<and> dst = backupFile_of e backupDir dbName @ ''.gz'')"
proof (intro conjI impI)
  show name: "backupFile_of e backupDir dbName =
           filepath_Join [backupDir, dbName @ ''_'' @ spec_timestamp (now_start e) @ ''.dump'']"
    by (simp add: backupFile_of_def Format_backup_layout [OF assms])
  show "backupFile_of e backupDir dbName = spec_backup_path backupDir dbName (now_start e)"
    if "clean_dir backupDir \<and> plain_name dbName"
  proof -
    from that have d: "clean_dir backupDir" and n: "CHR ''/'' \<notin> set dbName"
      by (simp_all add: plain_name_def)
    from d have "backupDir \<noteq> []" by (simp add: clean_dir_def)
    then have "filepath_Join [backupDir, dbName @ ''_'' @ spec_timestamp (now_start e) @ ''.dump''] =
        filepath_Clean (backupDir @ ''/'' @ (dbName @ ''_'' @ spec_timestamp (now_start e) @ ''.dump''))"
      by (simp add: filepath_Join_def)
    also have "\<dots> = backupDir @ ''/'' @ (dbName @ ''_'' @ spec_timestamp (now_start e) @ ''.dump'')"
      by (rule Clean_append_name [OF d backup_name_shape(1) [OF n] backup_name_shape(2,3,4)])
    finally show ?thesis by (simp add: name spec_backup_path_def)
  qed
  assume run: "runBackup e w dbName dbUser dbHost backupDir logFile retentionDays = (w', out)
            \<and> trace w = [] \<and> CallCompress src dst r \<in> set (trace w')"
  then show "src = backupFile_of e backupDir dbName" "dst = backupFile_of e backupDir dbName @ ''.gz''"
    by (auto simp: runBackup_def Let_def op_results split: if_splits prod.splits option.splits
             dest!: cleanup_trace_mem)
qed

theorem backup_path_naming_witness:
  "valid_time (now_start env_ok) \<and> clean_dir ''/b'' \<and> plain_name ''mydb''
   \<and> backupFile_of env_ok ''/b'' ''mydb'' = ''/b/mydb_2025-08-09_114200.dump''
   \<and> spec_backup_path ''/b'' ''mydb'' (now_start env_ok) = ''/b/mydb_2025-08-09_114200.dump''
   \<and> trace world_b = []
   \<and> CallCompress ''/b/mydb_2025-08-09_114200.dump'' ''/b/mydb_2025-08-09_114200.dump.gz'' None
       \<in> set (trace (fst (runBackup env_ok world_b ''mydb'' ''postgres'' ''localhost'' ''/b'' ''/log'' 7)))"
proof -
  let ?run = "runBackup env_ok world_b ''mydb'' ''postgres'' ''localhost'' ''/b'' ''/log'' 7"
  have v: "valid_time (now_start env_ok)"
    by (simp add: valid_time_def env_ok_def clock_at_def)
  have d: "clean_dir ''/b''" "plain_name ''mydb''"
    by (simp_all add: clean_dir_def plain_name_def filepath_Clean_def clean_step_def)
  have sp: "spec_backup_path ''/b'' ''mydb'' (now_start env_ok) = ''/b/mydb_2025-08-09_114200.dump''"
    by (simp add: spec_backup_path_def spec_timestamp_def two_digits_def four_digits_def digit_def
                  env_ok_def clock_at_def)
  have fresh: "trace world_b = []" by (simp add: world_b_def)
  have tr: "CallCompress ''/b/mydb_2025-08-09_114200.dump'' ''/b/mydb_2025-08-09_114200.dump.gz'' None
       \<in> set (trace (fst ?run))"
    by (simp add: runBackup_def path_eval os_eval sweep_eval example_defs)
  have run: "?run = (fst ?run, snd ?run)" by simp
  from backup_path_naming [OF v, of "''/b''" "''mydb''" world_b "''postgres''" "''localhost''" "''/log''" 7
                             "fst ?run" "snd ?run" "''/b/mydb_2025-08-09_114200.dump''"
                             "''/b/mydb_2025-08-09_114200.dump.gz''" None]
       v d sp fresh tr run
  show ?thesis by simp
qed

subsection \<open>A successful backup\<close>














end
